theory Spec2Isabelle
  imports Main
begin

section \<open>Text primitives of the JavaScript runtime\<close>

text \<open>
  The reader works on JavaScript strings. A \<^typ>\<open>char\<close> stands for one code unit
  below 256, which covers the ASCII traffic of the supported scales.
\<close>

definition STX :: char where "STX = CHR 0x02"
definition ETX :: char where "ETX = CHR 0x03"
definition CR :: char where "CR = CHR 0x0D"
definition LF :: char where "LF = CHR 0x0A"
definition BSL :: char where "BSL = CHR 0x5C"

definition isWhiteSpace :: "char \<Rightarrow> bool" where
  \<comment> \<open>WhiteSpace and LineTerminator code units below 256: TAB, LF, VT, FF, CR, SP, NBSP.\<close>
  "isWhiteSpace c = (of_char c \<in> {9, 10, 11, 12, 13, 32, 160 :: nat})"

definition isDigit :: "char \<Rightarrow> bool" where
  "isDigit c = (48 \<le> (of_char c :: nat) \<and> (of_char c :: nat) \<le> 57)"

definition isWordChar :: "char \<Rightarrow> bool" where
  "isWordChar c = (let n = (of_char c :: nat) in
     (48 \<le> n \<and> n \<le> 57) \<or> (65 \<le> n \<and> n \<le> 90) \<or> (97 \<le> n \<and> n \<le> 122) \<or> n = 95)"

definition digitVal :: "char \<Rightarrow> int" where
  "digitVal c = int (of_char c) - 48"

definition digitsValue :: "string \<Rightarrow> int" where
  "digitsValue ds = foldl (\<lambda>a c. 10 * a + digitVal c) 0 ds"

text \<open>
  A weight is a JavaScript Number that is not NaN and has no fraction: an integer that a
  double holds exactly (\<open>Num 0\<close> is the positive zero), the negative zero, or an
  infinity. \<open>toNumber\<close> is the conversion of a mathematical integer to the nearest double,
  ties to the even significand of 53 bits, and to an infinity from \<open>2 ^ 1024\<close> on.
\<close>

datatype number = Num int | NegZero | PosInfinity | NegInfinity

function bitLength :: "int \<Rightarrow> nat" where
  "bitLength n = (if n \<le> 0 then 0 else Suc (bitLength (n div 2)))"
  by pat_completeness auto
termination
  by (relation "measure nat") auto

declare bitLength.simps [simp del]

definition roundToDouble :: "int \<Rightarrow> int" where
  "roundToDouble n =
     (if n < 2 ^ 53 then n
      else
        (let e = bitLength n - 53; q = n div 2 ^ e; r = n mod 2 ^ e; h = 2 ^ (e - 1)
         in (if h < r \<or> (r = h \<and> odd q) then q + 1 else q) * 2 ^ e))"

definition toNumber :: "int \<Rightarrow> number" where
  "toNumber i =
     (if \<bar>i\<bar> < 2 ^ 53 then Num i
      else
        (let m = roundToDouble \<bar>i\<bar>
         in if 2 ^ 1024 \<le> m then (if i < 0 then NegInfinity else PosInfinity)
            else Num (if i < 0 then - m else m)))"

definition parseInt :: "string \<Rightarrow> number option" where
  \<comment> \<open>\<open>parseInt(s, 10)\<close>: skip leading white space, read an optional sign, take the
      longest prefix of decimal digits and ignore whatever follows; the result is the
      Number nearest to the signed value of the digits, all of which are read (as V8
      does), and the negative zero for a zero after a minus sign; \<open>None\<close> is NaN.\<close>
  "parseInt s =
     (let s1 = dropWhile isWhiteSpace s;
          neg = (case s1 of [] \<Rightarrow> False | c # _ \<Rightarrow> c = CHR ''-'');
          s2 = (case s1 of [] \<Rightarrow> [] | c # r \<Rightarrow> if c = CHR ''-'' \<or> c = CHR ''+'' then r else s1);
          z = takeWhile isDigit s2
      in if z = [] then None
         else if neg \<and> digitsValue z = 0 then Some NegZero
         else Some (toNumber (if neg then - digitsValue z else digitsValue z)))"

definition trim :: "string \<Rightarrow> string" where
  "trim s = rev (dropWhile isWhiteSpace (rev (dropWhile isWhiteSpace s)))"

fun split :: "char \<Rightarrow> string \<Rightarrow> string list" where
  \<comment> \<open>\<open>s.split(sep)\<close> for a one-character separator.\<close>
  "split sep [] = [[]]"
| "split sep (c # cs) =
     (if c = sep then [] # split sep cs
      else (case split sep cs of [] \<Rightarrow> [[c]] | l # ls \<Rightarrow> (c # l) # ls))"

fun joinLines :: "char \<Rightarrow> string list \<Rightarrow> string" where
  \<comment> \<open>\<open>lines.join(sep)\<close>, the inverse of \<open>split\<close>\<close>
  "joinLines sep [] = []"
| "joinLines sep [l] = l"
| "joinLines sep (l # m # ls) = l @ sep # joinLines sep (m # ls)"

fun indexOf :: "char \<Rightarrow> string \<Rightarrow> nat option" where
  \<comment> \<open>\<open>s.indexOf(c)\<close>; \<open>None\<close> is the result -1.\<close>
  "indexOf c [] = None"
| "indexOf c (x # xs) = (if x = c then Some 0 else map_option Suc (indexOf c xs))"

fun lastIndexOf :: "char \<Rightarrow> string \<Rightarrow> nat option" where
  \<comment> \<open>\<open>s.lastIndexOf(c)\<close>; \<open>None\<close> is the result -1.\<close>
  "lastIndexOf c [] = None"
| "lastIndexOf c (x # xs) =
     (case lastIndexOf c xs of
        Some i \<Rightarrow> Some (Suc i)
      | None \<Rightarrow> if x = c then Some 0 else None)"

definition substring :: "string \<Rightarrow> nat \<Rightarrow> string" where
  \<comment> \<open>\<open>s.substring(i)\<close>\<close>
  "substring s i = drop i s"

definition substring2 :: "string \<Rightarrow> nat \<Rightarrow> nat \<Rightarrow> string" where
  \<comment> \<open>\<open>s.substring(i, j)\<close> for \<open>i \<le> j\<close>\<close>
  "substring2 s i j = take (j - i) (drop i s)"


section \<open>The regular-expression engine\<close>

text \<open>
  \<open>applyRegexFilter\<close> calls \<open>new RegExp(pattern, 'gms')\<close> and \<open>regex.exec(data)\<close>.
  Both belong to the JavaScript runtime, so the reader is modelled over an arbitrary
  engine: \<open>compile\<close> returns \<open>None\<close> where the constructor throws a SyntaxError, and
  \<open>exec\<close> returns \<open>None\<close> for \<open>null\<close>, otherwise the match array's entries 0 and 1
  (entry 1 is \<open>None\<close> when it is \<open>undefined\<close>).
\<close>

record regexp_match =
  m0 :: string
  m1 :: "string option"

record 'rx engine =
  compile :: "string \<Rightarrow> 'rx option"
  exec :: "'rx \<Rightarrow> string \<Rightarrow> regexp_match option"

subsection \<open>A fragment of the ECMAScript pattern language\<close>

text \<open>
  For concrete runs the following engine implements the part of the pattern language
  that the shipped configurations use: literal characters, \<open>.\<close> (with the \<open>s\<close> flag it
  matches every character), the escapes \<open>\d \D \s \S \w \W \r \n \t \f \v\<close>, escaped
  punctuation, character classes with ranges and negation, capturing and
  \<open>(?:\<close> non-capturing groups, the lookaheads \<open>(?=\<close> and \<open>(?!\<close>, alternation and
  the quantifiers \<open>* + ?\<close>, greedy or lazy. Anything else (anchors, braces,
  lookbehind, named groups, back-references and the other escapes) is reported as
  \<open>Unsupported\<close>.
\<close>

datatype citem = CChar char | CRange char char | CDigit | CSpace | CWord
  | CNotDigit | CNotSpace | CNotWord

fun citem_match :: "citem \<Rightarrow> char \<Rightarrow> bool" where
  "citem_match (CChar a) c = (c = a)"
| "citem_match (CRange a b) c = ((of_char a :: nat) \<le> of_char c \<and> (of_char c :: nat) \<le> of_char b)"
| "citem_match CDigit c = isDigit c"
| "citem_match CSpace c = isWhiteSpace c"
| "citem_match CWord c = isWordChar c"
| "citem_match CNotDigit c = (\<not> isDigit c)"
| "citem_match CNotSpace c = (\<not> isWhiteSpace c)"
| "citem_match CNotWord c = (\<not> isWordChar c)"

datatype rx = Eps
  | Cls bool "citem list"  \<comment> \<open>one character; the flag is the class negation\<close>
  | Seq rx rx
  | Alt rx rx
  | Star rx
  | Opt rx
  | LazyStar rx
  | LazyOpt rx
  | Grp nat rx  \<comment> \<open>capturing group with its number\<close>
  | Look bool rx  \<comment> \<open>lookahead; the flag is false for the negative one\<close>

fun has_group1 :: "rx \<Rightarrow> bool" where
  "has_group1 Eps = False"
| "has_group1 (Cls _ _) = False"
| "has_group1 (Seq a b) = (has_group1 a \<or> has_group1 b)"
| "has_group1 (Alt a b) = (has_group1 a \<or> has_group1 b)"
| "has_group1 (Star a) = has_group1 a"
| "has_group1 (Opt a) = has_group1 a"
| "has_group1 (LazyStar a) = has_group1 a"
| "has_group1 (LazyOpt a) = has_group1 a"
| "has_group1 (Grp i a) = (i = 1 \<or> has_group1 a)"
| "has_group1 (Look _ a) = has_group1 a"

definition reset_caps :: "rx \<Rightarrow> string option \<Rightarrow> string option" where
  \<comment> \<open>entering an iteration of a quantifier clears the captures of the groups inside it\<close>
  "reset_caps a c = (if has_group1 a then None else c)"

text \<open>
  The matcher lists every way in which a pattern can match a prefix of the input, in
  the backtracking order of the ECMAScript semantics; an entry is the remaining input
  and the capture of group 1. An iteration of \<open>*\<close> or \<open>?\<close> that consumes nothing is
  rejected, as in the RepeatMatcher of the standard; a lazy quantifier tries to go on
  without an iteration first. A lookahead consumes nothing and is never re-entered: the
  positive one keeps the captures of the first match of its body, the negative one
  succeeds when the body has no match.
\<close>

function matches :: "rx \<Rightarrow> string \<Rightarrow> string option \<Rightarrow> (string \<times> string option) list" where
  "matches Eps s c = [(s, c)]"
| "matches (Cls neg items) s c =
     (case s of [] \<Rightarrow> []
      | x # xs \<Rightarrow> if list_ex (\<lambda>i. citem_match i x) items \<noteq> neg then [(xs, c)] else [])"
| "matches (Seq a b) s c = concat (map (\<lambda>(s', c'). matches b s' c') (matches a s c))"
| "matches (Alt a b) s c = matches a s c @ matches b s c"
| "matches (Star a) s c =
     concat (map (\<lambda>(s', c'). matches (Star a) s' c')
                 (filter (\<lambda>(s', c'). length s' < length s) (matches a s (reset_caps a c))))
     @ [(s, c)]"
| "matches (Opt a) s c =
     filter (\<lambda>(s', c'). length s' < length s) (matches a s (reset_caps a c)) @ [(s, c)]"
| "matches (LazyStar a) s c =
     (s, c)
     # concat (map (\<lambda>(s', c'). matches (LazyStar a) s' c')
                   (filter (\<lambda>(s', c'). length s' < length s) (matches a s (reset_caps a c))))"
| "matches (LazyOpt a) s c =
     (s, c) # filter (\<lambda>(s', c'). length s' < length s) (matches a s (reset_caps a c))"
| "matches (Grp i a) s c =
     map (\<lambda>(s', c'). (s', if i = 1 then Some (take (length s - length s') s) else c'))
         (matches a s c)"
| "matches (Look positive a) s c =
     (case matches a s c of
        [] \<Rightarrow> if positive then [] else [(s, c)]
      | (s', c') # _ \<Rightarrow> if positive then [(s, c')] else [])"
  by pat_completeness auto
termination
  by (relation "measures [\<lambda>(r, s, c). size r, \<lambda>(r, s, c). length s]") auto

fun js_exec :: "rx \<Rightarrow> string \<Rightarrow> regexp_match option" where
  \<comment> \<open>\<open>exec\<close> on a fresh regular expression: the first start position with a match\<close>
  "js_exec r s =
     (case matches r s None of
        (s', c') # _ \<Rightarrow> Some \<lparr>m0 = take (length s - length s') s, m1 = c'\<rparr>
      | [] \<Rightarrow> (case s of [] \<Rightarrow> None | _ # xs \<Rightarrow> js_exec r xs))"


subsection \<open>Reading a pattern\<close>

datatype parse_result = Parsed rx | Malformed | Unsupported

text \<open>
  A frame is a group under construction: its kind (the top level counts as a
  non-capturing group), the alternatives already finished and the atoms of the current
  alternative, both latest first; the flag of an atom says whether a quantifier may
  still follow it.
\<close>

datatype grouping = NonCapturing | Capturing nat | LookAhead bool

datatype frame = Frame grouping "rx list" "(rx \<times> bool) list"

fun seq_of :: "(rx \<times> bool) list \<Rightarrow> rx" where
  "seq_of [] = Eps"
| "seq_of [(a, _)] = a"
| "seq_of ((a, _) # b # rest) = Seq (seq_of (b # rest)) a"

fun close_frame :: "frame \<Rightarrow> rx" where
  "close_frame (Frame g fin cur) =
     (let r = foldl (\<lambda>acc a. Alt a acc) (seq_of cur) fin
      in case g of
           NonCapturing \<Rightarrow> r
         | Capturing i \<Rightarrow> Grp i r
         | LookAhead positive \<Rightarrow> Look positive r)"

fun push_atom :: "frame \<Rightarrow> rx \<Rightarrow> frame" where
  "push_atom (Frame g fin cur) a = Frame g fin ((a, True) # cur)"

fun next_alt :: "frame \<Rightarrow> frame" where
  "next_alt (Frame g fin cur) = Frame g (seq_of cur # fin) []"

definition class_escape :: "char \<Rightarrow> citem option" where
  \<comment> \<open>the escapes of the fragment; \<open>None\<close> for every other escape\<close>
  "class_escape e =
     (if e = CHR ''d'' then Some CDigit else if e = CHR ''D'' then Some CNotDigit
      else if e = CHR ''s'' then Some CSpace else if e = CHR ''S'' then Some CNotSpace
      else if e = CHR ''w'' then Some CWord else if e = CHR ''W'' then Some CNotWord
      else if e = CHR ''r'' then Some (CChar CR) else if e = CHR ''n'' then Some (CChar LF)
      else if e = CHR ''t'' then Some (CChar (CHR 0x09))
      else if e = CHR ''v'' then Some (CChar (CHR 0x0B))
      else if e = CHR ''f'' then Some (CChar (CHR 0x0C))
      else if e \<in> set ''^$.*+?()[]{}|/-'' \<or> e = BSL then Some (CChar e)
      else None)"

datatype token = Raw char | Esc char
  \<comment> \<open>a pattern character, or the character that follows a backslash\<close>

definition quantify :: "token \<Rightarrow> bool \<Rightarrow> rx \<Rightarrow> rx" where
  \<comment> \<open>the atom under \<open>*\<close>, \<open>+\<close> or \<open>?\<close>; the flag says that the quantifier is lazy\<close>
  "quantify q lazy a =
     (if q = Raw (CHR ''*'') then (if lazy then LazyStar a else Star a)
      else if q = Raw (CHR ''+'') then Seq a (if lazy then LazyStar a else Star a)
      else (if lazy then LazyOpt a else Opt a))"

fun tokens :: "string \<Rightarrow> token list option" where
  \<comment> \<open>\<open>None\<close>: the pattern ends in a backslash\<close>
  "tokens [] = Some []"
| "tokens (c # cs) =
     (if c = BSL then
        (case cs of
           [] \<Rightarrow> None
         | e # cs1 \<Rightarrow> map_option ((#) (Esc e)) (tokens cs1))
      else map_option ((#) (Raw c)) (tokens cs))"

fun token_item :: "token \<Rightarrow> citem option" where
  "token_item (Raw c) = Some (CChar c)"
| "token_item (Esc e) = class_escape e"

fun class_range :: "citem \<Rightarrow> citem \<Rightarrow> citem list option" where
  \<comment> \<open>\<open>a-b\<close> in a class, latest first: a range between two characters (\<open>None\<close> when
      it is out of order), and otherwise the two items and the dash\<close>
  "class_range (CChar x) (CChar y) =
     (if (of_char y :: nat) < of_char x then None else Some [CRange x y])"
| "class_range a b = Some [b, CChar (CHR ''-''), a]"

fun parse ::
    "token list \<Rightarrow> nat \<Rightarrow> (bool \<times> citem list) option \<Rightarrow> frame \<Rightarrow> frame list \<Rightarrow> parse_result" where
  "parse [] n cls f st =
     (if cls \<noteq> None \<or> st \<noteq> [] then Malformed else Parsed (close_frame f))"
| "parse (t # ts) n (Some (neg, items)) f st =
     (if t = Raw (CHR '']'') then parse ts n None (push_atom f (Cls neg (rev items))) st
      else
        (case token_item t of
           None \<Rightarrow> Unsupported
         | Some a \<Rightarrow>
             (case ts of
                d # u # ts2 \<Rightarrow>
                  if d = Raw (CHR ''-'') \<and> u \<noteq> Raw (CHR '']'') then
                    (case token_item u of
                       None \<Rightarrow> Unsupported
                     | Some b \<Rightarrow>
                         (case class_range a b of
                            None \<Rightarrow> Malformed
                          | Some new \<Rightarrow> parse ts2 n (Some (neg, new @ items)) f st))
                  else parse ts n (Some (neg, a # items)) f st
              | _ \<Rightarrow> parse ts n (Some (neg, a # items)) f st)))"
| "parse (t # ts) n None f st =
     (if t = Raw (CHR ''('') then
        (case ts of
           [] \<Rightarrow> Malformed
         | q # ts1 \<Rightarrow>
             if q = Raw (CHR ''?'') then
               (case ts1 of
                  [] \<Rightarrow> Malformed
                | k # ts2 \<Rightarrow>
                    if k = Raw (CHR '':'') then
                      parse ts2 n None (Frame NonCapturing [] []) (f # st)
                    else if k = Raw (CHR ''='') then
                      parse ts2 n None (Frame (LookAhead True) [] []) (f # st)
                    else if k = Raw (CHR ''!'') then
                      parse ts2 n None (Frame (LookAhead False) [] []) (f # st)
                    else Unsupported)
             else parse ts (Suc n) None (Frame (Capturing (Suc n)) [] []) (f # st))
      else if t = Raw (CHR '')'') then
        (case st of
           [] \<Rightarrow> Malformed
         | p # st1 \<Rightarrow> parse ts n None (push_atom p (close_frame f)) st1)
      else if t = Raw (CHR ''|'') then parse ts n None (next_alt f) st
      else if t = Raw (CHR ''*'') \<or> t = Raw (CHR ''+'') \<or> t = Raw (CHR ''?'') then
        (case f of
           Frame g fin [] \<Rightarrow> Malformed
         | Frame g fin ((a, q) # cur) \<Rightarrow>
             if \<not> q then Malformed
             else
               (case ts of
                  [] \<Rightarrow> parse ts n None (Frame g fin ((quantify t False a, False) # cur)) st
                | u # ts1 \<Rightarrow>
                    if u = Raw (CHR ''?'') then
                      parse ts1 n None (Frame g fin ((quantify t True a, False) # cur)) st
                    else parse ts n None (Frame g fin ((quantify t False a, False) # cur)) st))
      else if t = Raw (CHR ''['') then
        (case ts of
           [] \<Rightarrow> Malformed
         | k # ts1 \<Rightarrow>
             if k = Raw (CHR ''^'') then parse ts1 n (Some (True, [])) f st
             else parse ts n (Some (False, [])) f st)
      else if t = Raw (CHR ''.'') then parse ts n None (push_atom f (Cls True [])) st
      else if t \<in> Raw ` set ''^${}'' then Unsupported
      else
        (case token_item t of
           None \<Rightarrow> Unsupported
         | Some i \<Rightarrow> parse ts n None (push_atom f (Cls False [i])) st))"

definition js_parse :: "string \<Rightarrow> parse_result" where
  "js_parse p =
     (case tokens p of
        None \<Rightarrow> Malformed
      | Some ts \<Rightarrow> parse ts 0 None (Frame NonCapturing [] []) [])"

text \<open>
  On a pattern outside the fragment the model says nothing: whether it compiles, and what
  it matches, is left to two constants without any property. No statement below rests
  on them.
\<close>

definition beyond_fragment_compiles :: "string \<Rightarrow> bool" where
  "beyond_fragment_compiles = undefined"

definition beyond_fragment_exec :: "string \<Rightarrow> string \<Rightarrow> regexp_match option" where
  "beyond_fragment_exec = undefined"

datatype compiled = Within rx | Beyond string
  \<comment> \<open>a regular expression of the fragment, or the source of one outside it\<close>

definition js_engine :: "compiled engine" where
  "js_engine =
     \<lparr>compile =
        (\<lambda>p. case js_parse p of
               Parsed r \<Rightarrow> Some (Within r)
             | Malformed \<Rightarrow> None
             | Unsupported \<Rightarrow> if beyond_fragment_compiles p then Some (Beyond p) else None),
      exec = (\<lambda>c s. case c of Within r \<Rightarrow> js_exec r s | Beyond p \<Rightarrow> beyond_fragment_exec p s)\<rparr>"


section \<open>The reader\<close>

record config =
  port :: string
  baudRate :: int
  dataBits :: int
  parity :: string
  stopBits :: int
  rtscts :: bool
  xon :: bool
  xoff :: bool
  xany :: bool
  dtr :: bool
  rts :: bool
  hupcl :: bool
  openDelay :: int
  closeDelay :: int
  protocolType :: string
  regexFilter :: string
  readTimeout :: int
  logLevel :: string

text \<open>
  An error object is kept as a value; its message is
  \<open>Failed to open port <port>: <message>\<close>,
  \<open>Timeout: No valid weight data received in <readTimeout>ms\<close>,
  \<open>Serial port error: <message>\<close>, or the message of what the
  \<open>SerialPort\<close> constructor threw.
\<close>

datatype failure =
    ConstructorThrew string
  | OpenFailed string string
  | Timeout int
  | SerialPortError string

text \<open>Of the logger only its warnings and errors are recorded.\<close>

datatype log_entry =
    RegexError  \<comment> \<open>\<open>logger.error(`Regex error: ...`)\<close>\<close>
  | SignalWarning string  \<comment> \<open>\<open>logger.warn(`Warning: Could not set DTR/RTS signals: ...`)\<close>\<close>
  | ReadWeightFailed failure  \<comment> \<open>\<open>logger.error(`Read weight failed: ...`)\<close>\<close>
  | ClosingError string  \<comment> \<open>\<open>logger.error(`Error closing port: ...`)\<close>\<close>

subsection \<open>Pattern extractor\<close>

definition numericText :: "regexp_match \<Rightarrow> string" where
  \<comment> \<open>\<open>match[1] || match[0]\<close>: \<open>undefined\<close> and the empty string are both falsy\<close>
  "numericText match =
     (case m1 match of None \<Rightarrow> m0 match | Some g \<Rightarrow> if g = [] then m0 match else g)"

definition applyRegexFilter ::
    "'rx engine \<Rightarrow> config \<Rightarrow> string \<Rightarrow> number option \<times> log_entry list" where
  "applyRegexFilter E cfg data =
     (if regexFilter cfg = [] then (None, [])
      else
        (case compile E (regexFilter cfg) of
           None \<Rightarrow> (None, [RegexError])  \<comment> \<open>the constructor throws; the catch logs it\<close>
         | Some regex \<Rightarrow>
             (case exec E regex data of
                None \<Rightarrow> (None, [])
              | Some match \<Rightarrow>
                  (let weightStr = numericText match
                   in case parseInt weightStr of
                        Some weight \<Rightarrow> (Some weight, [])
                      | None \<Rightarrow> (None, [])))))"

subsection \<open>Frame decoder\<close>

definition frameAttempt ::
    "'rx engine \<Rightarrow> config \<Rightarrow> string \<Rightarrow> (number \<times> nat) option \<times> log_entry list" where
  \<comment> \<open>the first half of \<open>processFrameProtocol\<close>: the weight of the frame after the last
      STX, with the index up to which the buffer is consumed\<close>
  "frameAttempt E cfg dataBuffer =
     (case lastIndexOf STX dataBuffer of
        None \<Rightarrow> (None, [])
      | Some lastStxIndex \<Rightarrow>
          (let frameBuffer = substring dataBuffer lastStxIndex
           in case indexOf ETX frameBuffer of
                None \<Rightarrow> (None, [])
              | Some etxIndex \<Rightarrow>
                  (let frame = substring2 frameBuffer 0 (etxIndex + 1)
                   in case applyRegexFilter E cfg frame of
                        (Some weight, lg) \<Rightarrow> (Some (weight, lastStxIndex + etxIndex + 1), lg)
                      | (None, lg) \<Rightarrow> (None, lg))))"

definition processFrameProtocol ::
    "'rx engine \<Rightarrow> config \<Rightarrow> string \<Rightarrow> string \<Rightarrow> number option \<times> string \<times> log_entry list" where
  \<comment> \<open>takes \<open>this.dataBuffer\<close> and the chunk; returns the weight or \<open>null\<close>, the new
      \<open>this.dataBuffer\<close> and what was logged\<close>
  "processFrameProtocol E cfg dataBuffer data =
     (case frameAttempt E cfg dataBuffer of
        (Some (weight, consumed), lg) \<Rightarrow> (Some weight, substring dataBuffer consumed, lg)
      | (None, lg) \<Rightarrow>
          (None,
           (if length dataBuffer > 1000 then
              (case lastIndexOf STX dataBuffer of
                 Some recentStx \<Rightarrow> substring dataBuffer recentStx
               | None \<Rightarrow> [])
            else dataBuffer),
           lg))"

subsection \<open>Line decoder\<close>

fun scanLines ::
    "'rx engine \<Rightarrow> config \<Rightarrow> string list \<Rightarrow> number option \<times> log_entry list" where
  \<comment> \<open>the \<open>for (const line of lines)\<close> loop\<close>
  "scanLines E cfg [] = (None, [])"
| "scanLines E cfg (line # lines) =
     (if trim line \<noteq> [] then
        (case applyRegexFilter E cfg (line @ [CR]) of
           (Some weight, lg) \<Rightarrow> (Some weight, lg)
         | (None, lg) \<Rightarrow> (case scanLines E cfg lines of (r, lg') \<Rightarrow> (r, lg @ lg')))
      else scanLines E cfg lines)"

definition processLineProtocol ::
    "'rx engine \<Rightarrow> config \<Rightarrow> string \<Rightarrow> string \<Rightarrow> number option \<times> log_entry list" where
  "processLineProtocol E cfg dataBuffer data =
     (if CR \<in> set data then scanLines E cfg (split CR dataBuffer) else (None, []))"


subsection \<open>Collecting\<close>

text \<open>
  \<open>collectData\<close> returns a promise and installs three callbacks: the deadline timer,
  the \<open>data\<close> listener and the \<open>error\<close> listener. The event loop runs one callback at a
  time, so a collection is determined by the chunks and transport errors that arrive,
  in their order of arrival, before the timer fires; the timer fires after them unless
  a callback has cleared it. Every callback that settles the promise clears the timer,
  and a settled promise keeps its value, so the model stops at the first settlement.
\<close>

datatype event = Data string | PortError string

datatype outcome =
    Resolved number string  \<comment> \<open>\<open>resolve({ weight, rawData })\<close>\<close>
  | Rejected failure  \<comment> \<open>\<open>reject(new Error(...))\<close>\<close>

record collector =
  dataBuffer :: string
  lastValidWeight :: "number option"

definition onTimeout :: "config \<Rightarrow> collector \<Rightarrow> outcome" where
  \<comment> \<open>the \<open>setTimeout\<close> callback\<close>
  "onTimeout cfg st =
     (case lastValidWeight st of
        Some w \<Rightarrow> Resolved w (dataBuffer st)
      | None \<Rightarrow> Rejected (Timeout (readTimeout cfg)))"

definition onData ::
    "'rx engine \<Rightarrow> config \<Rightarrow> collector \<Rightarrow> string \<Rightarrow> outcome option \<times> collector \<times> log_entry list" where
  \<comment> \<open>the \<open>data\<close> listener; \<open>Some\<close> outcome when it settles the promise\<close>
  "onData E cfg st textData =
     (let buf = dataBuffer st @ textData;
          (weightExtracted, buf', lg) =
            (if protocolType cfg = ''frame'' then processFrameProtocol E cfg buf textData
             else (case processLineProtocol E cfg buf textData of (w, lg) \<Rightarrow> (w, buf, lg)))
      in case weightExtracted of
           Some w \<Rightarrow> (Some (Resolved w buf'), \<lparr>dataBuffer = buf', lastValidWeight = Some w\<rparr>, lg)
         | None \<Rightarrow> (None, st\<lparr>dataBuffer := buf'\<rparr>, lg))"

fun collect ::
    "'rx engine \<Rightarrow> config \<Rightarrow> collector \<Rightarrow> event list \<Rightarrow> outcome \<times> collector \<times> log_entry list" where
  \<comment> \<open>the value the promise settles with, the variables of the collection at that
      moment and what was logged until then\<close>
  "collect E cfg st [] = (onTimeout cfg st, st, [])"
| "collect E cfg st (PortError m # evs) = (Rejected (SerialPortError m), st, [])"
| "collect E cfg st (Data textData # evs) =
     (case onData E cfg st textData of
        (Some out, st', lg) \<Rightarrow> (out, st', lg)
      | (None, st', lg) \<Rightarrow>
          (case collect E cfg st' evs of (out, st'', lg') \<Rightarrow> (out, st'', lg @ lg')))"

definition collectData ::
    "'rx engine \<Rightarrow> config \<Rightarrow> event list \<Rightarrow> outcome \<times> collector \<times> log_entry list" where
  "collectData E cfg evs = collect E cfg \<lparr>dataBuffer = [], lastValidWeight = None\<rparr> evs"

subsection \<open>Opening, closing and the session\<close>

text \<open>
  What the transport does is given by an environment: whether the constructor throws,
  the error passed to the callbacks of \<open>open\<close>, \<open>set\<close> and \<open>close\<close>, whether
  \<open>set\<close> or \<open>close\<close> throw while closing, the events of the collection and the two
  readings of the clock. Every call on the port is recorded, together with the
  warnings and errors logged and each entry into \<open>closePort\<close>.
\<close>

record environment =
  constructorThrows :: "string option"
  openError :: "string option"
  setError :: "string option"
  events :: "event list"
  closeSetThrows :: "string option"
  closeThrows :: "string option"
  closeError :: "string option"
  startTime :: int
  endTime :: int

record port_options =
  opt_path :: string
  opt_baudRate :: int
  opt_dataBits :: int
  opt_parity :: string
  opt_stopBits :: int
  opt_rtscts :: bool
  opt_xon :: bool
  opt_xoff :: bool
  opt_xany :: bool
  opt_hupcl :: bool
  opt_autoOpen :: bool

datatype effect =
    NewSerialPort port_options
  | PortOpen
  | PortSet bool bool "bool option"  \<comment> \<open>\<open>port.set({ dtr, rts, brk })\<close>; \<open>None\<close>: no \<open>brk\<close> given\<close>
  | Wait int  \<comment> \<open>\<open>setTimeout\<close> awaited\<close>
  | PortClose
  | Logged log_entry
  | ClosePortEntered

datatype port_state = NoPort | NotOpen | IsOpen
  \<comment> \<open>\<open>this.port\<close> is \<open>null\<close>, or a port with \<open>isOpen\<close> false or true\<close>

definition closePort :: "config \<Rightarrow> environment \<Rightarrow> port_state \<Rightarrow> effect list \<times> port_state" where
  "closePort cfg env p =
     (if p = IsOpen then
        (let closing =
               (case closeThrows env of
                  Some m \<Rightarrow> ([PortClose, Logged (ClosingError m)], IsOpen)
                | None \<Rightarrow> ([PortClose], if closeError env = None then NotOpen else IsOpen))
         in if closeDelay cfg > 0 then
              (case closeSetThrows env of
                 Some m \<Rightarrow> ([PortSet (dtr cfg) (rts cfg) None, Logged (ClosingError m)], IsOpen)
               | None \<Rightarrow>
                   ([PortSet (dtr cfg) (rts cfg) None, Wait (closeDelay cfg)] @ fst closing,
                    snd closing))
            else closing)
      else ([], p))"

definition portOptions :: "config \<Rightarrow> port_options" where
  "portOptions cfg =
     \<lparr>opt_path = port cfg, opt_baudRate = baudRate cfg, opt_dataBits = dataBits cfg,
      opt_parity = parity cfg, opt_stopBits = stopBits cfg, opt_rtscts = rtscts cfg,
      opt_xon = xon cfg, opt_xoff = xoff cfg, opt_xany = xany cfg, opt_hupcl = hupcl cfg,
      opt_autoOpen = False\<rparr>"

definition openPort :: "config \<Rightarrow> environment \<Rightarrow> (failure option \<times> effect list \<times> port_state)" where
  \<comment> \<open>the constructor call and the awaited promise around \<open>port.open\<close>\<close>
  "openPort cfg env =
     (case constructorThrows env of
        Some m \<Rightarrow> (Some (ConstructorThrew m), [NewSerialPort (portOptions cfg)], NoPort)
      | None \<Rightarrow>
          (case openError env of
             Some m \<Rightarrow>
               (Some (OpenFailed (port cfg) m), [NewSerialPort (portOptions cfg), PortOpen], NotOpen)
           | None \<Rightarrow>
               (None,
                [NewSerialPort (portOptions cfg), PortOpen, PortSet (dtr cfg) (rts cfg) (Some False)]
                @ (case setError env of Some m \<Rightarrow> [Logged (SignalWarning m)] | None \<Rightarrow> [])
                @ [Wait (openDelay cfg)],
                IsOpen)))"

datatype result =
    Success number string string int  \<comment> \<open>weight, protocol, rawData, readTime\<close>
  | Failure failure int  \<comment> \<open>error, readTime\<close>

definition readWeight ::
    "'rx engine \<Rightarrow> config \<Rightarrow> environment \<Rightarrow> result \<times> effect list \<times> port_state" where
  "readWeight E cfg env =
     (let (opened, fx1, p1) = openPort cfg env;
          (settled, fx2) =
            (case opened of
               Some e \<Rightarrow> (Rejected e, [])
             | None \<Rightarrow>
                 (case collectData E cfg (events env) of (out, st, lg) \<Rightarrow> (out, map Logged lg)))
      in case settled of
           Resolved weight rawData \<Rightarrow>
             (let (fx3, p2) = closePort cfg env p1
              in (Success weight (protocolType cfg) rawData (endTime env - startTime env),
                  fx1 @ fx2 @ [ClosePortEntered] @ fx3, p2))
         | Rejected e \<Rightarrow>
             (let (fx3, p2) = closePort cfg env p1
              in (Failure e (endTime env - startTime env),
                  fx1 @ fx2 @ [Logged (ReadWeightFailed e), ClosePortEntered] @ fx3, p2)))"


subsection \<open>Example configurations\<close>

definition coquimbitoPattern :: string where
  \<comment> \<open>\<open>[D@F](\d+)\<close>\<close>
  "coquimbitoPattern = ''[D@F]('' @ BSL # ''d+)''"

definition sanJuanPattern :: string where
  \<comment> \<open>\<open>1\r\n\s*(\d+)\s*\r\n\s*0\<close>\<close>
  "sanJuanPattern =
     ''1'' @ BSL # ''r'' @ BSL # ''n'' @ BSL # ''s*('' @ BSL # ''d+)'' @ BSL # ''s*''
     @ BSL # ''r'' @ BSL # ''n'' @ BSL # ''s*0''"

definition coquimbitoRegex :: rx where
  \<comment> \<open>what \<open>[D@F](\d+)\<close> is read as\<close>
  "coquimbitoRegex =
     Seq (Cls False [CChar (CHR ''D''), CChar (CHR ''@''), CChar (CHR ''F'')])
         (Grp 1 (Seq (Cls False [CDigit]) (Star (Cls False [CDigit]))))"

definition brokenPattern :: string where
  \<comment> \<open>\<open>[D@F](\d+\<close>, with a group that is never closed\<close>
  "brokenPattern = ''[D@F]('' @ BSL # ''d+''"

definition signPattern :: string where
  \<comment> \<open>\<open>(-?)\d+\<close>\<close>
  "signPattern = ''(-?)'' @ BSL # ''d+''"

definition lineConfig :: config where
  "lineConfig =
     \<lparr>port = ''COM3'', baudRate = 1200, dataBits = 8, parity = ''none'', stopBits = 1,
      rtscts = False, xon = False, xoff = False, xany = False, dtr = False, rts = False,
      hupcl = False, openDelay = 100, closeDelay = 100, protocolType = ''line'',
      regexFilter = coquimbitoPattern, readTimeout = 3000, logLevel = ''info''\<rparr>"

definition frameConfig :: config where
  "frameConfig = lineConfig\<lparr>protocolType := ''frame'', regexFilter := sanJuanPattern\<rparr>"

definition quietEnvironment :: "event list \<Rightarrow> environment" where
  \<comment> \<open>a transport on which every call succeeds\<close>
  "quietEnvironment evs =
     \<lparr>constructorThrows = None, openError = None, setError = None, events = evs,
      closeSetThrows = None, closeThrows = None, closeError = None,
      startTime = 0, endTime = 250\<rparr>"


subsection \<open>Observations on a session\<close>

fun signalSets :: "effect list \<Rightarrow> (bool \<times> bool) list" where
  \<comment> \<open>the DTR and RTS levels of the \<open>port.set\<close> calls of a trace, in order\<close>
  "signalSets [] = []"
| "signalSets (PortSet d r b # fx) = (d, r) # signalSets fx"
| "signalSets (_ # fx) = signalSets fx"

definition sessionResult :: "config \<Rightarrow> environment \<Rightarrow> outcome \<Rightarrow> result" where
  \<comment> \<open>the object \<open>readWeight\<close> builds from a settled collection\<close>
  "sessionResult cfg env out =
     (case out of
        Resolved w raw \<Rightarrow> Success w (protocolType cfg) raw (endTime env - startTime env)
      | Rejected e \<Rightarrow> Failure e (endTime env - startTime env))"

section \<open>Facts about the text primitives\<close>

lemma split_not_Nil: "split c s \<noteq> []"
  by (induction s) (auto split: list.splits)

lemma joinLines_split: "joinLines c (split c s) = s"
proof (induction s)
  case Nil
  then show ?case by simp
next
  case (Cons x xs)
  show ?case
  proof (cases "x = c")
    case True
    then show ?thesis using Cons split_not_Nil[of c xs]
      by (cases "split c xs") auto
  next
    case False
    then show ?thesis using Cons split_not_Nil[of c xs]
      by (cases "split c xs"; cases "tl (split c xs)") (auto split: list.splits)
  qed
qed

lemma split_no_sep: "l \<in> set (split c s) \<Longrightarrow> c \<notin> set l"
  by (induction s arbitrary: l) (auto split: if_splits list.splits)

lemma lastIndexOf_None: "lastIndexOf c s = None \<longleftrightarrow> c \<notin> set s"
  by (induction s) (auto split: option.splits)

lemma lastIndexOf_last: "c \<notin> set ys \<Longrightarrow> lastIndexOf c (xs @ c # ys) = Some (length xs)"
proof (induction xs)
  case Nil
  then show ?case using lastIndexOf_None[of c ys] by simp
next
  case (Cons x xs)
  then show ?case by simp
qed

lemma indexOf_first: "c \<notin> set xs \<Longrightarrow> indexOf c (xs @ c # ys) = Some (length xs)"
  by (induction xs) auto

lemma indexOf_None: "indexOf c s = None \<longleftrightarrow> c \<notin> set s"
  by (induction s) auto

lemma STX_neq_ETX: "STX \<noteq> ETX"
  by (simp add: STX_def ETX_def)

section \<open>The data listener\<close>

lemma onData_frame:
  "protocolType cfg = ''frame'' \<Longrightarrow>
   processFrameProtocol E cfg (dataBuffer st @ d) d = (Some w, buf', lg) \<Longrightarrow>
   onData E cfg st d = (Some (Resolved w buf'), \<lparr>dataBuffer = buf', lastValidWeight = Some w\<rparr>, lg)"
  by (simp add: onData_def)

lemma onData_line:
  "protocolType cfg \<noteq> ''frame'' \<Longrightarrow>
   processLineProtocol E cfg (dataBuffer st @ d) d = (Some w, lg) \<Longrightarrow>
   onData E cfg st d =
     (Some (Resolved w (dataBuffer st @ d)),
      \<lparr>dataBuffer = dataBuffer st @ d, lastValidWeight = Some w\<rparr>, lg)"
  by (simp add: onData_def Let_def)

lemma collect_emits:
  assumes "(if protocolType cfg = ''frame''
            then fst (processFrameProtocol E cfg (dataBuffer st @ d) d)
            else fst (processLineProtocol E cfg (dataBuffer st @ d) d)) = Some w"
  shows "\<exists>raw. fst (collect E cfg st (Data d # evs)) = Resolved w raw"
proof (cases "protocolType cfg = ''frame''")
  case True
  with assms obtain buf' lg where
    "processFrameProtocol E cfg (dataBuffer st @ d) d = (Some w, buf', lg)"
    by (cases "processFrameProtocol E cfg (dataBuffer st @ d) d") auto
  from onData_frame[OF True this] show ?thesis by simp
next
  case False
  with assms obtain lg where
    "processLineProtocol E cfg (dataBuffer st @ d) d = (Some w, lg)"
    by (cases "processLineProtocol E cfg (dataBuffer st @ d) d") auto
  from onData_line[OF False this] show ?thesis by simp
qed

section \<open>Line decoder\<close>

lemma scanLines_find:
  "fst (scanLines E cfg ls) =
     (case find (\<lambda>l. trim l \<noteq> [] \<and> fst (applyRegexFilter E cfg (l @ [CR])) \<noteq> None) ls of
        None \<Rightarrow> None
      | Some l \<Rightarrow> fst (applyRegexFilter E cfg (l @ [CR])))"
  by (induction ls) (auto split: prod.splits option.splits)

text \<open>
  C1, as stated, fails: with the pattern \<open>[D@F](\d+)\<close> the line \<open>F000000\<close> of the first
  chunk already is a reading, so the session resolves with 0 on the first chunk; the
  scan of both lines that the second chunk would trigger finds the same line first.
\<close>

theorem line_session_takes_first_line:
  "fst (readWeight js_engine lineConfig
          (quietEnvironment [Data (''F000000'' @ [CR]), Data (''D002260'' @ [CR])]))
     = Success (Num 0) ''line'' (''F000000'' @ [CR]) 250
   \<and> fst (processLineProtocol js_engine lineConfig
            (''F000000'' @ [CR] @ ''D002260'' @ [CR]) (''D002260'' @ [CR])) = Some (Num 0)"
  by code_simp

text \<open>
  C1, amended: on every chunk that contains a line terminator the line decoder splits
  the whole accumulated buffer on the terminator (the segments joined by the terminator
  are the buffer, and no segment contains one) and returns the reading of the first
  segment, in order, that is not blank and whose text plus terminator yields a reading;
  a chunk without a terminator yields nothing; and in line mode the collection resolves
  with the reading of the first chunk for which the decoder returns one, the buffer left
  whole, whatever chunks follow.
\<close>

theorem line_decoder_scans_whole_buffer:
  "(CR \<in> set data \<longrightarrow>
      fst (processLineProtocol E cfg buf data) =
        (case find (\<lambda>l. trim l \<noteq> [] \<and> fst (applyRegexFilter E cfg (l @ [CR])) \<noteq> None)
                   (split CR buf) of
           None \<Rightarrow> None
         | Some l \<Rightarrow> fst (applyRegexFilter E cfg (l @ [CR]))))
   \<and> (CR \<notin> set data \<longrightarrow> processLineProtocol E cfg buf data = (None, []))
   \<and> joinLines CR (split CR buf) = buf
   \<and> (\<forall>l \<in> set (split CR buf). CR \<notin> set l)
   \<and> (protocolType cfg \<noteq> ''frame'' \<and> dataBuffer st @ data = buf
        \<and> fst (processLineProtocol E cfg buf data) = Some w \<longrightarrow>
        fst (collect E cfg st (Data data # evs)) = Resolved w buf)"
proof -
  have "protocolType cfg \<noteq> ''frame'' \<and> dataBuffer st @ data = buf
        \<and> fst (processLineProtocol E cfg buf data) = Some w \<longrightarrow>
        fst (collect E cfg st (Data data # evs)) = Resolved w buf"
  proof
    assume a: "protocolType cfg \<noteq> ''frame'' \<and> dataBuffer st @ data = buf
        \<and> fst (processLineProtocol E cfg buf data) = Some w"
    then obtain lg where "processLineProtocol E cfg (dataBuffer st @ data) data = (Some w, lg)"
      by (cases "processLineProtocol E cfg (dataBuffer st @ data) data") auto
    with a onData_line[of cfg E st data w lg]
    show "fst (collect E cfg st (Data data # evs)) = Resolved w buf"
      by auto
  qed
  then show ?thesis
    by (simp add: processLineProtocol_def scanLines_find joinLines_split split_no_sep)
qed

text \<open>
  The amended C1 on the two chunks of the specification: the first chunk ends in a
  terminator, its line \<open>F000000\<close> is the first that yields a reading, and the
  collection resolves with 0 and the first chunk as raw data.
\<close>

theorem line_decoder_scans_whole_buffer_witness:
  "CR \<in> set (''F000000'' @ [CR])
   \<and> protocolType lineConfig \<noteq> ''frame''
   \<and> find (\<lambda>l. trim l \<noteq> [] \<and> fst (applyRegexFilter js_engine lineConfig (l @ [CR])) \<noteq> None)
        (split CR (''F000000'' @ [CR])) = Some ''F000000''
   \<and> fst (applyRegexFilter js_engine lineConfig (''F000000'' @ [CR])) = Some (Num 0)
   \<and> fst (processLineProtocol js_engine lineConfig (''F000000'' @ [CR]) (''F000000'' @ [CR]))
       = Some (Num 0)
   \<and> fst (collectData js_engine lineConfig
            [Data (''F000000'' @ [CR]), Data (''D002260'' @ [CR])])
       = Resolved (Num 0) (''F000000'' @ [CR])"
proof -
  let ?d = "''F000000'' @ [CR]"
  let ?st = "\<lparr>dataBuffer = [], lastValidWeight = None\<rparr>"
  have m: "CR \<in> set ?d"
    by simp
  have l: "protocolType lineConfig \<noteq> ''frame''"
    by (simp add: lineConfig_def)
  have b: "dataBuffer ?st @ ?d = ?d"
    by simp
  have f: "find (\<lambda>l. trim l \<noteq> [] \<and> fst (applyRegexFilter js_engine lineConfig (l @ [CR])) \<noteq> None)
             (split CR ?d) = Some ''F000000''"
    by code_simp
  have a: "fst (applyRegexFilter js_engine lineConfig ?d) = Some (Num 0)"
    by code_simp
  note t = line_decoder_scans_whole_buffer
             [where data = ?d and E = js_engine and cfg = lineConfig and buf = ?d
                and st = ?st and w = "Num 0" and evs = "[Data (''D002260'' @ [CR])]"]
  from t m have "fst (processLineProtocol js_engine lineConfig ?d ?d) =
          (case find (\<lambda>l. trim l \<noteq> [] \<and> fst (applyRegexFilter js_engine lineConfig (l @ [CR])) \<noteq> None)
                     (split CR ?d) of
             None \<Rightarrow> None
           | Some l \<Rightarrow> fst (applyRegexFilter js_engine lineConfig (l @ [CR])))"
    by blast
  then have p: "fst (processLineProtocol js_engine lineConfig ?d ?d) = Some (Num 0)"
    by (simp only: f option.case a)
  from t l b p have "fst (collect js_engine lineConfig ?st [Data ?d, Data (''D002260'' @ [CR])])
                       = Resolved (Num 0) ?d"
    by blast
  then have c: "fst (collectData js_engine lineConfig [Data ?d, Data (''D002260'' @ [CR])])
                  = Resolved (Num 0) ?d"
    by (simp only: collectData_def)
  show ?thesis
    using m l f a p c by (simp only: simp_thms)
qed

section \<open>Frame decoder\<close>

lemma frameAttempt_last_frame:
  assumes "STX \<notin> set body" "STX \<notin> set post" "ETX \<notin> set body"
  shows "frameAttempt E cfg (pre @ STX # body @ ETX # post) =
           (case applyRegexFilter E cfg (STX # body @ [ETX]) of
              (Some w, lg) \<Rightarrow> (Some (w, length pre + length body + 2), lg)
            | (None, lg) \<Rightarrow> (None, lg))"
proof -
  have l: "lastIndexOf STX (pre @ STX # body @ ETX # post) = Some (length pre)"
    using assms STX_neq_ETX by (intro lastIndexOf_last) auto
  have i: "indexOf ETX (STX # body @ ETX # post) = Some (Suc (length body))"
    using indexOf_first[of ETX "STX # body" post] assms STX_neq_ETX by auto
  show ?thesis
    unfolding frameAttempt_def l
    by (simp add: substring_def substring2_def i del: indexOf.simps
             split: prod.splits option.splits)
qed

text \<open>
  C2: in delimiter-framed mode the data listener appends the chunk; when the buffer is
  \<open>pre @ STX # body @ ETX # post\<close> with that STX the last one of the buffer and that ETX
  the first one after it, exactly the span \<open>STX # body @ [ETX]\<close> is given to the
  extractor, whatever \<open>pre\<close> holds; if it yields a reading, the buffer is cut down to
  \<open>post\<close> and the collection settles with that reading at this chunk, whatever events
  follow; if it yields none, the chunk yields none.
\<close>

theorem frame_decoder_last_frame:
  assumes "buf = pre @ STX # body @ ETX # post"
    and "STX \<notin> set body" and "STX \<notin> set post" and "ETX \<notin> set body"
  shows "(applyRegexFilter E cfg (STX # body @ [ETX]) = (Some w, lg) \<longrightarrow>
            processFrameProtocol E cfg buf data = (Some w, post, lg)
            \<and> (protocolType cfg = ''frame'' \<and> dataBuffer st @ data = buf \<longrightarrow>
                 collect E cfg st (Data data # evs) =
                   (Resolved w post, \<lparr>dataBuffer = post, lastValidWeight = Some w\<rparr>, lg)))
       \<and> (fst (applyRegexFilter E cfg (STX # body @ [ETX])) = None \<longrightarrow>
            fst (processFrameProtocol E cfg buf data) = None)"
proof -
  note fa = frameAttempt_last_frame[OF assms(2,3,4), of E cfg pre]
  show ?thesis
    unfolding assms(1)
    by (auto simp: processFrameProtocol_def fa onData_def substring_def
             split: prod.splits option.splits)
qed

text \<open>
  C2 on the buffer of the specification, \<open><STX>garbage<STX>1\r\n20450\r\n0<ETX>\<close>
  with the pattern \<open>1\r\n\s*(\d+)\s*\r\n\s*0\<close>: the reading is 20450.
\<close>

theorem frame_decoder_last_frame_witness:
  "collectData js_engine frameConfig
     [Data (STX # ''garbage'' @ STX # ''1'' @ [CR, LF] @ ''20450'' @ [CR, LF] @ ''0'' @ [ETX])]
   = (Resolved (Num 20450) [], \<lparr>dataBuffer = [], lastValidWeight = Some (Num 20450)\<rparr>, [])"
proof -
  let ?body = "''1'' @ [CR, LF] @ ''20450'' @ [CR, LF] @ ''0''"
  let ?buf = "STX # ''garbage'' @ STX # ?body @ [ETX]"
  have b: "?buf = (STX # ''garbage'') @ STX # ?body @ ETX # []" by simp
  have s1: "STX \<notin> set ?body" by (simp add: STX_def CR_def LF_def)
  have s2: "STX \<notin> set []" by simp
  have s3: "ETX \<notin> set ?body" by (simp add: ETX_def CR_def LF_def)
  have x: "applyRegexFilter js_engine frameConfig (STX # ?body @ [ETX]) = (Some (Num 20450), [])"
    by code_simp
  have p: "protocolType frameConfig = ''frame''" by (simp add: frameConfig_def)
  have d: "dataBuffer \<lparr>dataBuffer = [], lastValidWeight = None\<rparr> @ ?buf = ?buf" by simp
  from frame_decoder_last_frame[OF b s1 s2 s3, of js_engine frameConfig "Num 20450" "[]" ?buf
      "\<lparr>dataBuffer = [], lastValidWeight = None\<rparr>" "[]"] x p d
  show ?thesis unfolding collectData_def by (simp del: collect.simps)
qed


section \<open>The session\<close>

lemma signalSets_append: "signalSets (xs @ ys) = signalSets xs @ signalSets ys"
  by (induction xs rule: signalSets.induct) auto

lemma signalSets_Logged: "signalSets (map Logged lg) = []"
  by (induction lg) auto

lemma signalSets_openPort:
  "set (signalSets (fst (snd (openPort cfg env)))) \<subseteq> {(dtr cfg, rts cfg)}"
  by (auto simp: openPort_def signalSets_append split: option.splits)

lemma signalSets_closePort:
  "set (signalSets (fst (closePort cfg env p))) \<subseteq> {(dtr cfg, rts cfg)}"
  by (auto simp: closePort_def Let_def signalSets_append split: option.splits)

lemma readWeight_effects:
  "fst (snd (readWeight E cfg env)) =
     fst (snd (openPort cfg env))
     @ (case fst (openPort cfg env) of
          Some e \<Rightarrow> [Logged (ReadWeightFailed e), ClosePortEntered]
        | None \<Rightarrow>
            map Logged (snd (snd (collectData E cfg (events env))))
            @ (case fst (collectData E cfg (events env)) of
                 Resolved w raw \<Rightarrow> [ClosePortEntered]
               | Rejected e \<Rightarrow> [Logged (ReadWeightFailed e), ClosePortEntered]))
     @ fst (closePort cfg env (snd (snd (openPort cfg env))))"
  by (simp add: readWeight_def Let_def split: prod.splits option.splits outcome.splits)

lemma readWeight_result:
  "fst (readWeight E cfg env) =
     sessionResult cfg env
       (case fst (openPort cfg env) of
          Some e \<Rightarrow> Rejected e
        | None \<Rightarrow> fst (collectData E cfg (events env)))"
  by (simp add: readWeight_def sessionResult_def Let_def
           split: prod.splits option.splits outcome.splits)

lemma readWeight_port:
  "snd (snd (readWeight E cfg env)) = snd (closePort cfg env (snd (snd (openPort cfg env))))"
  by (simp add: readWeight_def Let_def split: prod.splits option.splits outcome.splits)

lemma count_Logged:
  "count_list (map Logged lg) ClosePortEntered = 0 \<and> count_list (map Logged lg) PortClose = 0"
  by (induction lg) auto

lemma closePort_counts:
  "count_list (fst (closePort cfg env p)) ClosePortEntered = 0
   \<and> count_list (fst (closePort cfg env p)) PortClose \<le> 1"
  by (auto simp: closePort_def Let_def split: option.splits)

lemma openPort_counts:
  "count_list (fst (snd (openPort cfg env))) ClosePortEntered = 0
   \<and> count_list (fst (snd (openPort cfg env))) PortClose = 0"
  by (auto simp: openPort_def split: option.splits)

lemma openPort_state:
  "snd (snd (openPort cfg env)) = IsOpen \<longleftrightarrow> fst (openPort cfg env) = None"
  by (auto simp: openPort_def split: option.splits)

lemma closePort_quiet:
  "closeSetThrows env = None \<Longrightarrow> closeThrows env = None \<Longrightarrow> closeError env = None \<Longrightarrow>
   closePort cfg env IsOpen =
     (if closeDelay cfg > 0
      then [PortSet (dtr cfg) (rts cfg) None, Wait (closeDelay cfg), PortClose]
      else [PortClose], NotOpen)"
  by (simp add: closePort_def)

lemma closePort_not_open: "p \<noteq> IsOpen \<Longrightarrow> closePort cfg env p = ([], p)"
  by (simp add: closePort_def)

lemma openPort_closing_irrelevant:
  "openPort cfg (env\<lparr>closeSetThrows := a, closeThrows := b, closeError := c\<rparr>) = openPort cfg env"
  by (simp add: openPort_def split: option.splits)

lemma openPort_quiet:
  "openPort cfg (quietEnvironment evs) =
     (None,
      [NewSerialPort (portOptions cfg), PortOpen, PortSet (dtr cfg) (rts cfg) (Some False),
       Wait (openDelay cfg)],
      IsOpen)"
  by (simp add: openPort_def quietEnvironment_def)

subsection \<open>Signal levels\<close>

text \<open>
  C3, as stated, fails for the close sequence: with a close delay that is not positive
  (here -1, as \<open>serial.closeDelay=-1\<close> gives) the guard \<open>closeDelay > 0\<close> skips the
  signal-set call and the wait, and the port is closed at once.
\<close>

theorem close_without_delay_sets_no_signals:
  "closePort (lineConfig\<lparr>dtr := True, rts := True, closeDelay := - 1\<rparr>) (quietEnvironment []) IsOpen
     = ([PortClose], NotOpen)
   \<and> signalSets (fst (closePort (lineConfig\<lparr>dtr := True, rts := True, closeDelay := - 1\<rparr>)
                         (quietEnvironment []) IsOpen)) = []"
  by (simp add: closePort_def lineConfig_def quietEnvironment_def)

text \<open>
  C3, amended: in a session every signal-set call carries exactly the configured DTR and
  RTS levels; when the port opens, the call (with BREAK off) directly follows the open call
  and is followed, after at most a warning, by the wait of the open delay; closing an
  open port re-asserts the configured levels, waits the close delay and then closes when
  the close delay is positive, and only closes the port when it is zero or negative.
\<close>

theorem signal_levels_as_configured:
  "(\<forall>s \<in> set (signalSets (fst (snd (readWeight E cfg env)))). s = (dtr cfg, rts cfg))
   \<and> (constructorThrows env = None \<and> openError env = None \<longrightarrow>
        (\<exists>warning. fst (snd (openPort cfg env)) =
           [NewSerialPort (portOptions cfg), PortOpen, PortSet (dtr cfg) (rts cfg) (Some False)]
           @ warning @ [Wait (openDelay cfg)]
           \<and> signalSets warning = []))
   \<and> (closeSetThrows env = None \<and> closeThrows env = None \<longrightarrow>
        fst (closePort cfg env IsOpen) =
          (if closeDelay cfg > 0
           then [PortSet (dtr cfg) (rts cfg) None, Wait (closeDelay cfg), PortClose]
           else [PortClose]))"
proof (intro conjI)
  show "\<forall>s \<in> set (signalSets (fst (snd (readWeight E cfg env)))). s = (dtr cfg, rts cfg)"
    using signalSets_openPort[of cfg env]
          signalSets_closePort[of cfg env "snd (snd (openPort cfg env))"]
    by (auto simp: readWeight_effects signalSets_append signalSets_Logged
             split: option.splits outcome.splits)
next
  show "constructorThrows env = None \<and> openError env = None \<longrightarrow>
        (\<exists>warning. fst (snd (openPort cfg env)) =
           [NewSerialPort (portOptions cfg), PortOpen, PortSet (dtr cfg) (rts cfg) (Some False)]
           @ warning @ [Wait (openDelay cfg)]
           \<and> signalSets warning = [])"
    by (cases "setError env") (auto simp: openPort_def)
next
  show "closeSetThrows env = None \<and> closeThrows env = None \<longrightarrow>
        fst (closePort cfg env IsOpen) =
          (if closeDelay cfg > 0
           then [PortSet (dtr cfg) (rts cfg) None, Wait (closeDelay cfg), PortClose]
           else [PortClose])"
    by (simp add: closePort_def)
qed

text \<open>
  The amended C3 on a session with DTR high and RTS low: both calls carry that pair.
\<close>

theorem signal_levels_as_configured_witness:
  "closeSetThrows (quietEnvironment [Data (''D002260'' @ [CR])]) = None
   \<and> closeThrows (quietEnvironment [Data (''D002260'' @ [CR])]) = None
   \<and> fst (closePort (lineConfig\<lparr>dtr := True\<rparr>) (quietEnvironment [Data (''D002260'' @ [CR])]) IsOpen)
       = [PortSet True False None, Wait 100, PortClose]
   \<and> set (signalSets (fst (snd (readWeight js_engine (lineConfig\<lparr>dtr := True\<rparr>)
                                   (quietEnvironment [Data (''D002260'' @ [CR])])))))
       \<subseteq> {(True, False)}
   \<and> signalSets (fst (snd (readWeight js_engine (lineConfig\<lparr>dtr := True\<rparr>)
                              (quietEnvironment [Data (''D002260'' @ [CR])]))))
       = [(True, False), (True, False)]"
proof -
  have q: "closeSetThrows (quietEnvironment [Data (''D002260'' @ [CR])]) = None
           \<and> closeThrows (quietEnvironment [Data (''D002260'' @ [CR])]) = None"
    by (simp add: quietEnvironment_def)
  have c: "dtr (lineConfig\<lparr>dtr := True\<rparr>) = True" "rts (lineConfig\<lparr>dtr := True\<rparr>) = False"
          "closeDelay (lineConfig\<lparr>dtr := True\<rparr>) = 100"
    by (simp_all add: lineConfig_def)
  have t: "signalSets (fst (snd (readWeight js_engine (lineConfig\<lparr>dtr := True\<rparr>)
                              (quietEnvironment [Data (''D002260'' @ [CR])]))))
           = [(True, False), (True, False)]"
    by code_simp
  from signal_levels_as_configured
         [of js_engine "lineConfig\<lparr>dtr := True\<rparr>" "quietEnvironment [Data (''D002260'' @ [CR])]"]
  show ?thesis
    using q t unfolding c by auto
qed

subsection \<open>Closure\<close>

text \<open>
  C4, as stated, fails in its last clause: the connection can be left open. When the
  signal-set call of \<open>closePort\<close> throws, the \<open>catch\<close> logs the error and \<open>port.close\<close>
  is never called; when \<open>port.close\<close> itself throws, or passes an error to its callback
  (which the code does not look at), the port stays open as well. In each of the three
  sessions the caller still receives the timeout failure.
\<close>

theorem failed_closing_leaves_port_open:
  "readWeight js_engine lineConfig ((quietEnvironment [])\<lparr>closeSetThrows := Some ''EIO''\<rparr>)
     = (Failure (Timeout 3000) 250,
        [NewSerialPort (portOptions lineConfig), PortOpen, PortSet False False (Some False),
         Wait 100, Logged (ReadWeightFailed (Timeout 3000)), ClosePortEntered,
         PortSet False False None, Logged (ClosingError ''EIO'')],
        IsOpen)
   \<and> count_list
         (fst (snd (readWeight js_engine lineConfig
                      ((quietEnvironment [])\<lparr>closeSetThrows := Some ''EIO''\<rparr>))))
         PortClose = 0
   \<and> readWeight js_engine lineConfig ((quietEnvironment [])\<lparr>closeThrows := Some ''EIO''\<rparr>)
     = (Failure (Timeout 3000) 250,
        [NewSerialPort (portOptions lineConfig), PortOpen, PortSet False False (Some False),
         Wait 100, Logged (ReadWeightFailed (Timeout 3000)), ClosePortEntered,
         PortSet False False None, Wait 100, PortClose, Logged (ClosingError ''EIO'')],
        IsOpen)
   \<and> readWeight js_engine lineConfig ((quietEnvironment [])\<lparr>closeError := Some ''EIO''\<rparr>)
     = (Failure (Timeout 3000) 250,
        [NewSerialPort (portOptions lineConfig), PortOpen, PortSet False False (Some False),
         Wait 100, Logged (ReadWeightFailed (Timeout 3000)), ClosePortEntered,
         PortSet False False None, Wait 100, PortClose],
        IsOpen)"
  by code_simp

text \<open>
  C4, amended: in every session \<open>closePort\<close> is entered exactly once and \<open>port.close\<close> is
  called at most once; the caller receives either a success with reading, protocol, raw
  data and elapsed time or a failure with reason and elapsed time; and when no closing
  call on the transport throws or reports an error, the port is not open at the end,
  \<open>port.close\<close> having been called exactly once if the port had been opened and not at all
  otherwise.
\<close>

theorem session_closes_exactly_once:
  "count_list (fst (snd (readWeight E cfg env))) ClosePortEntered = 1
   \<and> count_list (fst (snd (readWeight E cfg env))) PortClose \<le> 1
   \<and> ((\<exists>w raw. fst (readWeight E cfg env) =
                  Success w (protocolType cfg) raw (endTime env - startTime env))
        \<or> (\<exists>e. fst (readWeight E cfg env) = Failure e (endTime env - startTime env)))
   \<and> (closeSetThrows env = None \<and> closeThrows env = None \<and> closeError env = None \<longrightarrow>
        snd (snd (readWeight E cfg env)) \<noteq> IsOpen
        \<and> count_list (fst (snd (readWeight E cfg env))) PortClose =
            (if fst (openPort cfg env) = None then 1 else 0))"
proof (intro conjI)
  show "count_list (fst (snd (readWeight E cfg env))) ClosePortEntered = 1"
    using closePort_counts[of cfg env "snd (snd (openPort cfg env))"] openPort_counts[of cfg env]
    by (auto simp: readWeight_effects count_Logged split: option.splits outcome.splits)
next
  show "count_list (fst (snd (readWeight E cfg env))) PortClose \<le> 1"
    using closePort_counts[of cfg env "snd (snd (openPort cfg env))"] openPort_counts[of cfg env]
    by (auto simp: readWeight_effects count_Logged split: option.splits outcome.splits)
next
  show "(\<exists>w raw. fst (readWeight E cfg env) =
                  Success w (protocolType cfg) raw (endTime env - startTime env))
        \<or> (\<exists>e. fst (readWeight E cfg env) = Failure e (endTime env - startTime env))"
    by (auto simp: readWeight_result sessionResult_def split: option.splits outcome.splits)
next
  show "closeSetThrows env = None \<and> closeThrows env = None \<and> closeError env = None \<longrightarrow>
        snd (snd (readWeight E cfg env)) \<noteq> IsOpen
        \<and> count_list (fst (snd (readWeight E cfg env))) PortClose =
            (if fst (openPort cfg env) = None then 1 else 0)"
  proof (intro impI conjI)
    assume q: "closeSetThrows env = None \<and> closeThrows env = None \<and> closeError env = None"
    then show "snd (snd (readWeight E cfg env)) \<noteq> IsOpen"
      by (cases "snd (snd (openPort cfg env)) = IsOpen")
         (simp_all add: readWeight_port closePort_quiet closePort_not_open)
    have c: "count_list (fst (closePort cfg env (snd (snd (openPort cfg env))))) PortClose =
               (if fst (openPort cfg env) = None then 1 else 0)"
      using q openPort_state[of cfg env]
      by (cases "snd (snd (openPort cfg env)) = IsOpen")
         (simp_all add: closePort_quiet closePort_not_open)
    show "count_list (fst (snd (readWeight E cfg env))) PortClose =
            (if fst (openPort cfg env) = None then 1 else 0)"
      using c openPort_counts[of cfg env]
      by (auto simp: readWeight_effects count_Logged split: option.splits outcome.splits)
  qed
qed

text \<open>
  The amended C4 on a session that times out: one closure, one close call, the port
  closed.
\<close>

theorem session_closes_exactly_once_witness:
  "closeSetThrows (quietEnvironment []) = None \<and> closeThrows (quietEnvironment []) = None
   \<and> closeError (quietEnvironment []) = None
   \<and> fst (readWeight js_engine lineConfig (quietEnvironment [])) = Failure (Timeout 3000) 250
   \<and> count_list (fst (snd (readWeight js_engine lineConfig (quietEnvironment [])))) ClosePortEntered = 1
   \<and> count_list (fst (snd (readWeight js_engine lineConfig (quietEnvironment [])))) PortClose = 1
   \<and> snd (snd (readWeight js_engine lineConfig (quietEnvironment []))) \<noteq> IsOpen"
proof -
  have q: "closeSetThrows (quietEnvironment []) = None \<and> closeThrows (quietEnvironment []) = None
           \<and> closeError (quietEnvironment []) = None"
    by (simp add: quietEnvironment_def)
  have o: "fst (openPort lineConfig (quietEnvironment [])) = None"
    by (simp add: openPort_quiet)
  have r: "fst (readWeight js_engine lineConfig (quietEnvironment [])) = Failure (Timeout 3000) 250"
    by code_simp
  from session_closes_exactly_once[of js_engine lineConfig "quietEnvironment []"]
  show ?thesis
    using q o r by simp
qed


text \<open>
  C10: closing a port that was never created or is not open does nothing; an error
  thrown by the signal-set call or by the close call while closing an open port ends in
  the log and \<open>closePort\<close> returns normally; the result of \<open>readWeight\<close> is the one decided
  by opening and collecting, whatever happens while closing; and after a failed open the
  closure performs no call at all.
\<close>

theorem closing_preserves_result:
  "(p \<noteq> IsOpen \<longrightarrow> closePort cfg env p = ([], p))
   \<and> closePort cfg (env\<lparr>closeSetThrows := None, closeThrows := Some m\<rparr>) IsOpen =
       ((if closeDelay cfg > 0
         then [PortSet (dtr cfg) (rts cfg) None, Wait (closeDelay cfg)] else [])
        @ [PortClose, Logged (ClosingError m)], IsOpen)
   \<and> closePort cfg (env\<lparr>closeSetThrows := Some m\<rparr>) IsOpen =
       (if closeDelay cfg > 0
        then ([PortSet (dtr cfg) (rts cfg) None, Logged (ClosingError m)], IsOpen)
        else closePort cfg (env\<lparr>closeSetThrows := None\<rparr>) IsOpen)
   \<and> fst (readWeight E cfg env) =
       sessionResult cfg env
         (case fst (openPort cfg env) of
            Some e \<Rightarrow> Rejected e
          | None \<Rightarrow> fst (collectData E cfg (events env)))
   \<and> fst (readWeight E cfg (env\<lparr>closeSetThrows := a, closeThrows := b, closeError := c\<rparr>))
       = fst (readWeight E cfg env)
   \<and> (fst (openPort cfg env) \<noteq> None \<longrightarrow>
        fst (closePort cfg env (snd (snd (openPort cfg env)))) = [])"
proof (intro conjI)
  show "p \<noteq> IsOpen \<longrightarrow> closePort cfg env p = ([], p)"
    by (simp add: closePort_def)
next
  show "closePort cfg (env\<lparr>closeSetThrows := None, closeThrows := Some m\<rparr>) IsOpen =
       ((if closeDelay cfg > 0
         then [PortSet (dtr cfg) (rts cfg) None, Wait (closeDelay cfg)] else [])
        @ [PortClose, Logged (ClosingError m)], IsOpen)"
    by (simp add: closePort_def)
next
  show "closePort cfg (env\<lparr>closeSetThrows := Some m\<rparr>) IsOpen =
       (if closeDelay cfg > 0
        then ([PortSet (dtr cfg) (rts cfg) None, Logged (ClosingError m)], IsOpen)
        else closePort cfg (env\<lparr>closeSetThrows := None\<rparr>) IsOpen)"
    by (auto simp: closePort_def split: option.splits)
next
  show "fst (readWeight E cfg env) =
       sessionResult cfg env
         (case fst (openPort cfg env) of
            Some e \<Rightarrow> Rejected e
          | None \<Rightarrow> fst (collectData E cfg (events env)))"
    by (rule readWeight_result)
next
  show "fst (readWeight E cfg (env\<lparr>closeSetThrows := a, closeThrows := b, closeError := c\<rparr>))
       = fst (readWeight E cfg env)"
    by (simp add: readWeight_result sessionResult_def openPort_closing_irrelevant
             cong: option.case_cong outcome.case_cong)
next
  show "fst (openPort cfg env) \<noteq> None \<longrightarrow>
        fst (closePort cfg env (snd (snd (openPort cfg env)))) = []"
    using openPort_state[of cfg env] by (auto simp: closePort_def)
qed

text \<open>
  C10 on a session whose open fails while every closing call would throw: the failure of
  the open is returned and the closure calls nothing.
\<close>

theorem closing_preserves_result_witness:
  "NoPort \<noteq> IsOpen
   \<and> closePort lineConfig ((quietEnvironment [])\<lparr>openError := Some ''busy''\<rparr>) NoPort = ([], NoPort)
   \<and> fst (openPort lineConfig ((quietEnvironment [])\<lparr>openError := Some ''busy''\<rparr>)) \<noteq> None
   \<and> fst (readWeight js_engine lineConfig
            ((quietEnvironment [])\<lparr>openError := Some ''busy'', closeSetThrows := Some ''EIO'',
               closeThrows := Some ''EIO'', closeError := Some ''EIO''\<rparr>))
       = Failure (OpenFailed ''COM3'' ''busy'') 250
   \<and> fst (snd (readWeight js_engine lineConfig
                 ((quietEnvironment [])\<lparr>openError := Some ''busy''\<rparr>)))
       = [NewSerialPort (portOptions lineConfig), PortOpen,
          Logged (ReadWeightFailed (OpenFailed ''COM3'' ''busy'')), ClosePortEntered]"
proof -
  let ?env = "(quietEnvironment [])\<lparr>openError := Some ''busy''\<rparr>"
  have n: "NoPort \<noteq> IsOpen"
    by simp
  have o: "openPort lineConfig ?env =
             (Some (OpenFailed ''COM3'' ''busy''),
              [NewSerialPort (portOptions lineConfig), PortOpen], NotOpen)"
    by (simp add: openPort_def quietEnvironment_def lineConfig_def)
  have t: "endTime ?env - startTime ?env = 250"
    by (simp add: quietEnvironment_def)
  from closing_preserves_result
         [of NoPort lineConfig ?env "''EIO''" js_engine "Some ''EIO''" "Some ''EIO''" "Some ''EIO''"]
  have c: "closePort lineConfig ?env NoPort = ([], NoPort)"
    and r: "fst (readWeight js_engine lineConfig
                  (?env\<lparr>closeSetThrows := Some ''EIO'', closeThrows := Some ''EIO'',
                          closeError := Some ''EIO''\<rparr>))
            = sessionResult lineConfig ?env (Rejected (OpenFailed ''COM3'' ''busy''))"
    and e: "fst (closePort lineConfig ?env (snd (snd (openPort lineConfig ?env)))) = []"
    using n o by simp_all
  show ?thesis
    using n c r e o t by (simp add: sessionResult_def readWeight_effects)
qed


section \<open>The deadline\<close>

lemma onData_settles:
  "onData E cfg st d = (Some out, st', lg) \<Longrightarrow>
   \<exists>w. out = Resolved w (dataBuffer st') \<and> lastValidWeight st' = Some w"
  by (auto simp: onData_def Let_def split: prod.splits option.splits if_splits)

lemma onData_continues:
  "onData E cfg st d = (None, st', lg) \<Longrightarrow> lastValidWeight st' = lastValidWeight st"
  by (auto simp: onData_def Let_def split: prod.splits option.splits if_splits)

lemma collect_recorded:
  "lastValidWeight st = None \<Longrightarrow>
   (case collect E cfg st evs of
      (out, fin, lg) \<Rightarrow>
        (case lastValidWeight fin of
           Some w \<Rightarrow> out = Resolved w (dataBuffer fin)
         | None \<Rightarrow>
             out = Rejected (Timeout (readTimeout cfg))
             \<or> (\<exists>m. PortError m \<in> set evs \<and> out = Rejected (SerialPortError m))))"
proof (induction evs arbitrary: st)
  case Nil
  then show ?case by (simp add: onTimeout_def)
next
  case (Cons ev evs)
  show ?case
  proof (cases ev)
    case (PortError m)
    then show ?thesis using Cons.prems by auto
  next
    case (Data d)
    obtain o1 st1 lg1 where od: "onData E cfg st d = (o1, st1, lg1)"
      by (cases "onData E cfg st d") auto
    show ?thesis
    proof (cases o1)
      case None
      with od Cons.prems have "lastValidWeight st1 = None"
        using onData_continues[of E cfg st d st1 lg1] by simp
      from Cons.IH[OF this] show ?thesis
        using Data od None by (auto split: prod.splits option.splits)
    next
      case (Some out)
      with od onData_settles[of E cfg st d out st1 lg1]
      show ?thesis using Data by auto
    qed
  qed
qed

text \<open>
  C5: when the deadline callback runs with a last valid weight recorded, it resolves the
  collection with that weight and the buffer; with none recorded it rejects with the
  timeout error. For every sequence of events, if a weight was recorded when the
  collection settled, the collection resolved with exactly that weight; if none was
  recorded, the collection was rejected, with the timeout error unless a transport error
  arrived first.
\<close>

theorem deadline_resolution:
  "onTimeout cfg (st\<lparr>lastValidWeight := Some w\<rparr>) = Resolved w (dataBuffer st)
   \<and> onTimeout cfg (st\<lparr>lastValidWeight := None\<rparr>) = Rejected (Timeout (readTimeout cfg))
   \<and> (case collectData E cfg evs of
         (out, fin, lg) \<Rightarrow>
           (case lastValidWeight fin of
              Some w \<Rightarrow> out = Resolved w (dataBuffer fin)
            | None \<Rightarrow>
                out = Rejected (Timeout (readTimeout cfg))
                \<or> (\<exists>m. PortError m \<in> set evs \<and> out = Rejected (SerialPortError m))))"
  using collect_recorded[where st = "\<lparr>dataBuffer = [], lastValidWeight = None\<rparr>"
                           and E = E and cfg = cfg and evs = evs]
  by (simp add: onTimeout_def collectData_def)

text \<open>
  C5 on a line that the pattern does not match: the session times out after 3000 ms;
  and the deadline callback on a recorded weight of 7.
\<close>

theorem deadline_resolution_witness:
  "collectData js_engine lineConfig [Data (''X'' @ [CR])]
     = (Rejected (Timeout 3000), \<lparr>dataBuffer = ''X'' @ [CR], lastValidWeight = None\<rparr>, [])
   \<and> onTimeout lineConfig \<lparr>dataBuffer = ''X'' @ [CR], lastValidWeight = Some (Num 7)\<rparr>
       = Resolved (Num 7) (''X'' @ [CR])"
proof -
  have c: "snd (collectData js_engine lineConfig [Data (''X'' @ [CR])])
             = (\<lparr>dataBuffer = ''X'' @ [CR], lastValidWeight = None\<rparr>, [])"
    by code_simp
  have t: "readTimeout lineConfig = 3000"
    by (simp add: lineConfig_def)
  from deadline_resolution
         [where cfg = lineConfig
            and st = "\<lparr>dataBuffer = ''X'' @ [CR], lastValidWeight = None\<rparr>"
            and w = "Num 7" and E = js_engine and evs = "[Data (''X'' @ [CR])]"]
  show ?thesis
    using c t by (cases "collectData js_engine lineConfig [Data (''X'' @ [CR])]") auto
qed

section \<open>Patterns that never yield a reading\<close>

lemma frameAttempt_cases:
  "frameAttempt E cfg buf = (None, [])
   \<or> (\<exists>frame k. frameAttempt E cfg buf =
          (map_option (\<lambda>w. (w, k)) (fst (applyRegexFilter E cfg frame)),
           snd (applyRegexFilter E cfg frame)))"
proof (cases "lastIndexOf STX buf")
  case None
  then show ?thesis by (simp add: frameAttempt_def)
next
  case (Some i)
  show ?thesis
  proof (cases "indexOf ETX (substring buf i)")
    case None
    with Some show ?thesis by (simp add: frameAttempt_def)
  next
    case (Some j)
    let ?frame = "substring2 (substring buf i) 0 (j + 1)"
    obtain r lg where a: "applyRegexFilter E cfg ?frame = (r, lg)"
      by (cases "applyRegexFilter E cfg ?frame") auto
    have "frameAttempt E cfg buf =
            (map_option (\<lambda>w. (w, i + j + 1)) (fst (applyRegexFilter E cfg ?frame)),
             snd (applyRegexFilter E cfg ?frame))"
      using \<open>lastIndexOf STX buf = Some i\<close> Some a
      by (cases r) (simp_all add: frameAttempt_def)
    then show ?thesis by blast
  qed
qed

lemma scanLines_none:
  "\<forall>d. fst (applyRegexFilter E cfg d) = None \<Longrightarrow> fst (scanLines E cfg ls) = None"
  by (simp add: scanLines_find split: option.splits)

lemma frameAttempt_none:
  "\<forall>d. fst (applyRegexFilter E cfg d) = None \<Longrightarrow> fst (frameAttempt E cfg buf) = None"
  using frameAttempt_cases[of E cfg buf] by auto

lemma onData_none:
  assumes "\<forall>d. fst (applyRegexFilter E cfg d) = None"
  shows "fst (onData E cfg st d) = None"
  using frameAttempt_none[OF assms, of "dataBuffer st @ d"]
        scanLines_none[OF assms, of "split CR (dataBuffer st @ d)"]
  by (auto simp: onData_def Let_def processFrameProtocol_def processLineProtocol_def
           split: prod.splits option.splits)

lemma collect_none:
  assumes "\<forall>d. fst (applyRegexFilter E cfg d) = None"
  shows "lastValidWeight st = None \<Longrightarrow>
         lastValidWeight (fst (snd (collect E cfg st evs))) = None"
proof (induction evs arbitrary: st)
  case Nil
  then show ?case by simp
next
  case (Cons ev evs)
  show ?case
  proof (cases ev)
    case (PortError m)
    then show ?thesis using Cons.prems by simp
  next
    case (Data d)
    obtain o1 st1 lg1 where od: "onData E cfg st d = (o1, st1, lg1)"
      by (cases "onData E cfg st d") auto
    with onData_none[OF assms, of st d] have n: "o1 = None" by simp
    with od Cons.prems have "lastValidWeight st1 = None"
      using onData_continues[of E cfg st d st1 lg1] by simp
    from Cons.IH[OF this] show ?thesis
      using Data od n by (auto split: prod.splits)
  qed
qed

lemma collectData_without_reading:
  assumes "\<forall>d. fst (applyRegexFilter E cfg d) = None"
  shows "fst (collectData E cfg evs) = Rejected (Timeout (readTimeout cfg))
         \<or> (\<exists>m. PortError m \<in> set evs
               \<and> fst (collectData E cfg evs) = Rejected (SerialPortError m))"
proof -
  let ?st = "\<lparr>dataBuffer = [], lastValidWeight = None\<rparr>"
  have "lastValidWeight (fst (snd (collect E cfg ?st evs))) = None"
    by (rule collect_none[OF assms]) simp
  with collect_recorded[where st = ?st and E = E and cfg = cfg and evs = evs]
  show ?thesis
    by (auto simp: collectData_def split: prod.splits)
qed

text \<open>
  C6, as stated, fails: with the unclosed group of \<open>[D@F](\d+\<close> the port is opened
  and the signals are set without any complaint; the pattern error is logged during the
  collection, once per line evaluated (one line at the first chunk, two at the second),
  and the caller receives the timeout failure.
\<close>

theorem malformed_pattern_reported_per_attempt:
  "js_parse brokenPattern = Malformed
   \<and> readWeight js_engine (lineConfig\<lparr>regexFilter := brokenPattern\<rparr>)
        (quietEnvironment [Data (''F000000'' @ [CR]), Data (''D002260'' @ [CR])])
      = (Failure (Timeout 3000) 250,
         [NewSerialPort (portOptions (lineConfig\<lparr>regexFilter := brokenPattern\<rparr>)), PortOpen,
          PortSet False False (Some False), Wait 100,
          Logged RegexError, Logged RegexError, Logged RegexError,
          Logged (ReadWeightFailed (Timeout 3000)), ClosePortEntered,
          PortSet False False None, Wait 100, PortClose],
         NotOpen)"
  by code_simp

text \<open>
  C6, amended: a pattern that the engine rejects is not checked before the collection:
  opening logs no pattern error; every extraction attempt compiles the pattern again,
  logs the error and yields nothing; so the session cannot succeed and the caller
  receives a failure, which, once the port is open, is the timeout failure unless a
  transport error arrives first.
\<close>

theorem malformed_pattern_fails_every_attempt:
  assumes "regexFilter cfg \<noteq> []" and "compile E (regexFilter cfg) = None"
  shows "applyRegexFilter E cfg data = (None, [RegexError])
     \<and> Logged RegexError \<notin> set (fst (snd (openPort cfg env)))
     \<and> (\<exists>e. fst (readWeight E cfg env) = Failure e (endTime env - startTime env))
     \<and> (fst (openPort cfg env) = None \<longrightarrow>
          fst (readWeight E cfg env) =
            Failure (Timeout (readTimeout cfg)) (endTime env - startTime env)
          \<or> (\<exists>m. PortError m \<in> set (events env)
                \<and> fst (readWeight E cfg env) =
                    Failure (SerialPortError m) (endTime env - startTime env)))"
proof -
  have a: "\<forall>d. fst (applyRegexFilter E cfg d) = None"
    using assms by (simp add: applyRegexFilter_def)
  note c = collectData_without_reading[OF a, of "events env"]
  have 1: "applyRegexFilter E cfg data = (None, [RegexError])"
    using assms by (simp add: applyRegexFilter_def)
  have 2: "Logged RegexError \<notin> set (fst (snd (openPort cfg env)))"
    by (auto simp: openPort_def split: option.splits)
  have 3: "\<exists>e. fst (readWeight E cfg env) = Failure e (endTime env - startTime env)"
    using c by (auto simp: readWeight_result sessionResult_def split: option.splits)
  have 4: "fst (openPort cfg env) = None \<longrightarrow>
          fst (readWeight E cfg env) =
            Failure (Timeout (readTimeout cfg)) (endTime env - startTime env)
          \<or> (\<exists>m. PortError m \<in> set (events env)
                \<and> fst (readWeight E cfg env) =
                    Failure (SerialPortError m) (endTime env - startTime env))"
    using c by (auto simp: readWeight_result sessionResult_def split: option.splits)
  from 1 2 3 4 show ?thesis by blast
qed

text \<open>The amended C6 on the unclosed group, with one weight line arriving.\<close>

theorem malformed_pattern_fails_every_attempt_witness:
  "regexFilter (lineConfig\<lparr>regexFilter := brokenPattern\<rparr>) \<noteq> []
   \<and> compile js_engine (regexFilter (lineConfig\<lparr>regexFilter := brokenPattern\<rparr>)) = None
   \<and> applyRegexFilter js_engine (lineConfig\<lparr>regexFilter := brokenPattern\<rparr>) (''D002260'' @ [CR])
       = (None, [RegexError])
   \<and> fst (readWeight js_engine (lineConfig\<lparr>regexFilter := brokenPattern\<rparr>)
            (quietEnvironment [Data (''D002260'' @ [CR])]))
       = Failure (Timeout 3000) 250"
proof -
  let ?cfg = "lineConfig\<lparr>regexFilter := brokenPattern\<rparr>"
  let ?env = "quietEnvironment [Data (''D002260'' @ [CR])]"
  have h1: "regexFilter ?cfg \<noteq> []"
    by (simp add: brokenPattern_def)
  have h2: "compile js_engine (regexFilter ?cfg) = None"
    by code_simp
  have o: "fst (openPort ?cfg ?env) = None"
    by (simp add: openPort_quiet)
  have e: "events ?env = [Data (''D002260'' @ [CR])]" "endTime ?env - startTime ?env = 250"
    by (simp_all add: quietEnvironment_def)
  have t: "readTimeout ?cfg = 3000"
    by (simp add: lineConfig_def)
  from malformed_pattern_fails_every_attempt[OF h1 h2, of "''D002260'' @ [CR]" ?env]
  show ?thesis
    using h1 h2 o unfolding e t by auto
qed


section \<open>The pattern extractor\<close>

lemma bitLength_bounds:
  "0 < n \<Longrightarrow> 2 ^ (bitLength n - 1) \<le> n \<and> n < 2 ^ bitLength n"
proof (induction n rule: bitLength.induct)
  case (1 n)
  have b: "bitLength n = Suc (bitLength (n div 2))"
    using 1(2) by (subst bitLength.simps) simp
  show ?case
  proof (cases "n div 2 = 0")
    case True
    with 1(2) have "n = 1" by presburger
    then show ?thesis by (simp add: bitLength.simps)
  next
    case False
    with 1(2) have pos: "0 < n div 2" by presburger
    with 1 have ih: "2 ^ (bitLength (n div 2) - 1) \<le> n div 2 \<and> n div 2 < 2 ^ bitLength (n div 2)"
      by simp
    have p: "bitLength (n div 2) \<noteq> 0"
      using pos by (subst bitLength.simps) simp
    then obtain k where k: "bitLength (n div 2) = Suc k"
      by (cases "bitLength (n div 2)") auto
    from ih have "(2::int) ^ k \<le> n div 2" "n div 2 < 2 * 2 ^ k"
      unfolding k by auto
    then have "2 * 2 ^ k \<le> n" "n < 2 * (2 * 2 ^ k)"
      by presburger+
    then show ?thesis
      unfolding b k by simp
  qed
qed

lemma roundToDouble_exact:
  assumes "n \<le> 2 ^ 53"
  shows "roundToDouble n = n"
proof (cases "n < 2 ^ 53")
  case True
  then show ?thesis by (simp add: roundToDouble_def)
next
  case False
  with assms have n: "n = 2 ^ 53" by simp
  have "roundToDouble (2 ^ 53) = 2 ^ 53" by code_simp
  with n show ?thesis by simp
qed

lemma toNumber_exact: "\<bar>i\<bar> \<le> 2 ^ 53 \<Longrightarrow> toNumber i = Num i"
proof (cases "\<bar>i\<bar> < 2 ^ 53")
  case True
  then show ?thesis by (simp add: toNumber_def)
next
  case False
  assume "\<bar>i\<bar> \<le> 2 ^ 53"
  with False have a: "\<bar>i\<bar> = 2 ^ 53" by simp
  then have r: "roundToDouble \<bar>i\<bar> = \<bar>i\<bar>" by (simp add: roundToDouble_exact)
  have "\<not> (2::int) ^ 1024 \<le> 2 ^ 53" by simp
  with a r False show ?thesis
    unfolding toNumber_def by (auto simp: Let_def)
qed

lemma roundToDouble_nearest:
  assumes n: "2 ^ 53 \<le> n"
  defines "e \<equiv> bitLength n - 53"
  shows "\<exists>m. roundToDouble n = m * 2 ^ e \<and> 2 ^ 52 \<le> m \<and> m \<le> 2 ^ 53
             \<and> 2 * \<bar>m * 2 ^ e - n\<bar> \<le> 2 ^ e
             \<and> (2 * \<bar>m * 2 ^ e - n\<bar> = 2 ^ e \<longrightarrow> even m)"
proof -
  have pos: "0 < n" using n by (smt (verit) zero_less_power)
  note bb = bitLength_bounds[OF pos]
  have lt: "(2::int) ^ 53 < 2 ^ bitLength n" using n bb by linarith
  have bl: "53 < bitLength n"
  proof (rule power_less_imp_less_exp)
    show "(1::int) < 2" by simp
    show "(2::int) ^ 53 < 2 ^ bitLength n" by (rule lt)
  qed
  then have e1: "1 \<le> e" and be: "bitLength n = e + 53" unfolding e_def by auto
  define q where "q = n div 2 ^ e"
  define r where "r = n mod 2 ^ e"
  define h where "h = (2::int) ^ (e - 1)"
  have hh: "2 * h = 2 ^ e"
    unfolding h_def using e1 by (metis One_nat_def Suc_pred less_eq_Suc_le power_Suc)
  have nqr: "n = q * 2 ^ e + r" unfolding q_def r_def by (rule div_mult_mod_eq[symmetric])
  have r0: "0 \<le> r" "r < 2 ^ e" unfolding r_def by simp_all
  have pe: "(0::int) < 2 ^ e" by simp
  have "n < 2 ^ 53 * 2 ^ e" using bb be by (simp add: power_add mult.commute)
  then have "q * 2 ^ e < 2 ^ 53 * 2 ^ e" using nqr r0 by linarith
  then have q53: "q < 2 ^ 53"
    using pe by (rule_tac mult_right_less_imp_less[of q "2 ^ e" "2 ^ 53"]) simp_all
  have "2 ^ (bitLength n - 1) = (2::int) ^ 52 * 2 ^ e"
    unfolding be by (simp add: power_add)
  then have lo: "(2::int) ^ 52 * 2 ^ e \<le> n" using bb by simp
  have ex: "(q + 1) * 2 ^ e = q * 2 ^ e + 2 ^ e" by (simp add: distrib_right)
  have "2 ^ 52 * 2 ^ e < (q + 1) * 2 ^ e" using lo nqr r0 unfolding ex by linarith
  then have "2 ^ 52 < q + 1"
    using pe by (rule_tac mult_right_less_imp_less[of "2 ^ 52" "2 ^ e" "q + 1"]) simp_all
  then have q52: "2 ^ 52 \<le> q" by simp
  have nl: "\<not> n < 2 ^ 53" using n by simp
  have rdg: "roundToDouble n = (if h < r \<or> (r = h \<and> odd q) then q + 1 else q) * 2 ^ e"
    unfolding roundToDouble_def Let_def q_def r_def h_def e_def
    using nl by (simp only: if_False)
  show ?thesis
  proof (cases "h < r \<or> (r = h \<and> odd q)")
    case True
    then have rd: "roundToDouble n = (q + 1) * 2 ^ e"
      unfolding rdg by (simp only: if_True)
    have d: "(q + 1) * 2 ^ e - n = 2 ^ e - r" using nqr by (simp add: algebra_simps)
    have "2 * \<bar>(q + 1) * 2 ^ e - n\<bar> \<le> 2 ^ e" using True r0 hh unfolding d by auto
    moreover have "2 * \<bar>(q + 1) * 2 ^ e - n\<bar> = 2 ^ e \<longrightarrow> even (q + 1)"
      using True r0 hh unfolding d by auto
    ultimately show ?thesis using rd q52 q53 by (intro exI[of _ "q + 1"]) auto
  next
    case False
    then have rd: "roundToDouble n = q * 2 ^ e"
      unfolding rdg by (simp only: if_False)
    have d: "q * 2 ^ e - n = - r" using nqr by simp
    have "2 * \<bar>q * 2 ^ e - n\<bar> \<le> 2 ^ e" using False r0 hh unfolding d by auto
    moreover have "2 * \<bar>q * 2 ^ e - n\<bar> = 2 ^ e \<longrightarrow> even q"
      using False r0 hh unfolding d by auto
    ultimately show ?thesis using rd q52 q53 by (intro exI[of _ q]) auto
  qed
qed

lemma roundToDouble_overflow:
  assumes "2 ^ 1024 \<le> n"
  shows "2 ^ 1024 \<le> roundToDouble n"
proof -
  have n53: "(2::int) ^ 53 \<le> n"
  proof -
    have "(2::int) ^ 53 \<le> 2 ^ 1024" by (rule power_increasing) simp_all
    with assms show ?thesis by linarith
  qed
  then have pos: "0 < n" by (smt (verit) zero_less_power)
  note bb = bitLength_bounds[OF pos]
  have lt: "(2::int) ^ 1024 < 2 ^ bitLength n" using assms bb by linarith
  have bl: "1024 < bitLength n"
  proof (rule power_less_imp_less_exp)
    show "(1::int) < 2" by simp
    show "(2::int) ^ 1024 < 2 ^ bitLength n" by (rule lt)
  qed
  from roundToDouble_nearest[OF n53] obtain m where
    m: "roundToDouble n = m * 2 ^ (bitLength n - 53)" "2 ^ 52 \<le> m" by blast
  have "(2::int) ^ 1024 \<le> 2 ^ 52 * 2 ^ (bitLength n - 53)"
  proof -
    have "(1024::nat) \<le> 52 + (bitLength n - 53)" using bl by simp
    then have "(2::int) ^ 1024 \<le> 2 ^ (52 + (bitLength n - 53))"
      by (intro power_increasing) simp_all
    then show ?thesis by (simp only: power_add)
  qed
  also have "\<dots> \<le> m * 2 ^ (bitLength n - 53)"
    using m(2) by (intro mult_right_mono) simp_all
  finally show ?thesis using m(1) by simp
qed

lemma toNumber_infinite:
  assumes "2 ^ 1024 \<le> \<bar>i\<bar>"
  shows "toNumber i = (if i < 0 then NegInfinity else PosInfinity)"
proof -
  have "(2::int) ^ 53 \<le> 2 ^ 1024" by (rule power_increasing) simp_all
  with assms have "\<not> \<bar>i\<bar> < 2 ^ 53" by linarith
  with roundToDouble_overflow[OF assms] show ?thesis
    unfolding toNumber_def by (simp add: Let_def)
qed

lemma isDigit_not_sign:
  "isDigit c \<Longrightarrow> c \<noteq> CHR ''-'' \<and> c \<noteq> CHR ''+'' \<and> \<not> isWhiteSpace c"
  by (auto simp: isDigit_def isWhiteSpace_def)

lemma sign_not_space: "\<not> isWhiteSpace (CHR ''-'')" "\<not> isWhiteSpace (CHR ''+'')"
  by (simp_all add: isWhiteSpace_def)

lemma parseInt_after_space:
  "\<forall>c \<in> set ws. isWhiteSpace c \<Longrightarrow> parseInt (ws @ s) = parseInt s"
  by (simp add: parseInt_def dropWhile_append2)

lemma takeWhile_digits:
  "\<forall>c \<in> set ds. isDigit c \<Longrightarrow> rest = [] \<or> \<not> isDigit (hd rest) \<Longrightarrow>
   takeWhile isDigit (ds @ rest) = ds"
  by (cases rest) (auto simp: takeWhile_append2)

lemma parseInt_digits:
  assumes "ds \<noteq> []" "\<forall>c \<in> set ds. isDigit c" "rest = [] \<or> \<not> isDigit (hd rest)"
  shows "parseInt (ds @ rest) = Some (toNumber (digitsValue ds))"
    and "parseInt (CHR ''-'' # ds @ rest) =
           Some (if digitsValue ds = 0 then NegZero else toNumber (- digitsValue ds))"
    and "parseInt (CHR ''+'' # ds @ rest) = Some (toNumber (digitsValue ds))"
proof -
  obtain d ds' where ds: "ds = d # ds'" using assms(1) by (cases ds) auto
  then have d: "isDigit d" using assms(2) by simp
  note n = isDigit_not_sign[OF d]
  have t: "takeWhile isDigit (d # ds' @ rest) = ds"
    using takeWhile_digits[OF assms(2,3)] ds by simp
  show "parseInt (ds @ rest) = Some (toNumber (digitsValue ds))"
    using n t assms(1) unfolding ds
    by (simp add: parseInt_def Let_def del: takeWhile.simps)
  show "parseInt (CHR ''-'' # ds @ rest) =
          Some (if digitsValue ds = 0 then NegZero else toNumber (- digitsValue ds))"
    using t assms(1) unfolding ds
    by (simp add: parseInt_def Let_def sign_not_space del: takeWhile.simps)
  show "parseInt (CHR ''+'' # ds @ rest) = Some (toNumber (digitsValue ds))"
    using t assms(1) unfolding ds
    by (simp add: parseInt_def Let_def sign_not_space del: takeWhile.simps)
qed

lemma parseInt_value:
  assumes "\<forall>c \<in> set ws. isWhiteSpace c" "sign \<in> {[], ''-'', ''+''}"
    "ds \<noteq> []" "\<forall>c \<in> set ds. isDigit c" "rest = [] \<or> \<not> isDigit (hd rest)"
  shows "parseInt (ws @ sign @ ds @ rest) =
           Some (if sign = ''-'' \<and> digitsValue ds = 0 then NegZero
                 else toNumber (if sign = ''-'' then - digitsValue ds else digitsValue ds))"
  using assms(2) parseInt_digits[OF assms(3,4,5)]
  by (auto simp: parseInt_after_space[OF assms(1)])

lemma parseInt_Some_iff:
  "parseInt s \<noteq> None \<longleftrightarrow>
     (\<exists>ws sign d rest. s = ws @ sign @ d # rest \<and> (\<forall>c \<in> set ws. isWhiteSpace c)
        \<and> sign \<in> {[], ''-'', ''+''} \<and> isDigit d)"
proof
  assume a: "parseInt s \<noteq> None"
  let ?ws = "takeWhile isWhiteSpace s"
  let ?s1 = "dropWhile isWhiteSpace s"
  let ?s2 = "(case ?s1 of [] \<Rightarrow> [] | c # r \<Rightarrow> if c = CHR ''-'' \<or> c = CHR ''+'' then r else ?s1)"
  from a have z: "takeWhile isDigit ?s2 \<noteq> []"
    by (auto simp: parseInt_def Let_def split: if_splits)
  then obtain d rest where s2: "?s2 = d # rest" and d: "isDigit d"
    by (cases ?s2) (auto split: if_splits)
  have "\<exists>sign. sign \<in> {[], ''-'', ''+''} \<and> ?s1 = sign @ d # rest"
  proof (cases ?s1)
    case Nil
    with s2 show ?thesis by simp
  next
    case (Cons c r)
    show ?thesis
    proof (cases "c = CHR ''-'' \<or> c = CHR ''+''")
      case True
      with Cons s2 have "r = d # rest" by auto
      with Cons True show ?thesis by auto
    next
      case False
      with Cons s2 have "?s1 = d # rest" by auto
      then show ?thesis by auto
    qed
  qed
  then obtain sign where sg: "sign \<in> {[], ''-'', ''+''}" "?s1 = sign @ d # rest" by blast
  have "s = ?ws @ ?s1" by simp
  with sg have "s = ?ws @ sign @ d # rest" by simp
  moreover have "\<forall>c \<in> set ?ws. isWhiteSpace c"
    by (auto dest: set_takeWhileD)
  ultimately show "\<exists>ws sign d rest. s = ws @ sign @ d # rest \<and> (\<forall>c \<in> set ws. isWhiteSpace c)
        \<and> sign \<in> {[], ''-'', ''+''} \<and> isDigit d"
    using sg(1) d by blast
next
  assume "\<exists>ws sign d rest. s = ws @ sign @ d # rest \<and> (\<forall>c \<in> set ws. isWhiteSpace c)
        \<and> sign \<in> {[], ''-'', ''+''} \<and> isDigit d"
  then obtain ws sign d rest where s: "s = ws @ sign @ d # rest"
      and ws: "\<forall>c \<in> set ws. isWhiteSpace c" and sg: "sign \<in> {[], ''-'', ''+''}" and d: "isDigit d"
    by blast
  note n = isDigit_not_sign[OF d]
  have "parseInt (sign @ d # rest) \<noteq> None"
    using sg n d by (auto simp: parseInt_def Let_def sign_not_space)
  then show "parseInt s \<noteq> None"
    unfolding s by (simp add: parseInt_after_space[OF ws])
qed

lemma digitsValue_snoc: "digitsValue (ds @ [d]) = 10 * digitsValue ds + digitVal d"
  by (simp add: digitsValue_def)

lemma digitsValue_nines: "digitsValue (replicate n (CHR ''9'')) = 10 ^ n - 1"
proof (induction n)
  case 0
  then show ?case by (simp add: digitsValue_def)
next
  case (Suc n)
  have "replicate (Suc n) (CHR ''9'') = replicate n (CHR ''9'') @ [CHR ''9'']"
    by (simp add: replicate_append_same)
  then have "digitsValue (replicate (Suc n) (CHR ''9''))
               = 10 * digitsValue (replicate n (CHR ''9'')) + 9"
    by (simp only: digitsValue_snoc) (simp add: digitVal_def)
  with Suc show ?case by simp
qed

lemma applyRegexFilter_match:
  assumes "regexFilter cfg \<noteq> []" "compile E (regexFilter cfg) = Some regex"
  shows "applyRegexFilter E cfg data =
           (case exec E regex data of
              None \<Rightarrow> (None, [])
            | Some match \<Rightarrow> (parseInt (numericText match), []))"
  using assms
  by (auto simp: applyRegexFilter_def Let_def split: option.splits)

lemma compile_coquimbito: "compile js_engine coquimbitoPattern = Some (Within coquimbitoRegex)"
  by code_simp

text \<open>
  C7, as stated, fails: the pattern \<open>(-?)\d+\<close> defines a capturing group, which on
  \<open>002260\<close> captures the empty text; that text is no integer, and yet the extractor
  returns the reading 2260, read from the whole match.
\<close>

theorem empty_capture_falls_back_to_whole_match:
  "map_option (\<lambda>regex. exec js_engine regex ''002260'') (compile js_engine signPattern)
     = Some (Some \<lparr>m0 = ''002260'', m1 = Some []\<rparr>)
   \<and> parseInt [] = None
   \<and> applyRegexFilter js_engine (lineConfig\<lparr>regexFilter := signPattern\<rparr>) ''002260''
       = (Some (Num 2260), [])"
  by code_simp

text \<open>
  C7, amended: for every candidate and every pattern that compiles, the extractor logs
  nothing and returns what \<open>parseInt\<close> reads from the numeric text of the match, and
  nothing when there is no match. The numeric text is the capture of group 1 when that is
  defined and not empty, and the whole match otherwise. \<open>parseInt\<close> yields a number
  exactly when the text is optional white space, an optional sign and at least one
  digit, followed by anything; the number is the Number nearest to the signed decimal
  value of the longest run of digits at that place (the negative zero when that run is of
  zeros after a minus sign): that value itself up to \<open>2 ^ 53\<close>,
  beyond it the multiple \<open>m * 2 ^ e\<close> with a significand \<open>m\<close> of 53 bits that is
  nearest to it (the even \<open>m\<close> of two equally near), and an infinity when the value or
  that multiple reaches \<open>2 ^ 1024\<close>.
\<close>

theorem extractor_numeric_text:
  assumes "regexFilter cfg \<noteq> []" and "compile E (regexFilter cfg) = Some regex"
  shows "applyRegexFilter E cfg data =
           (case exec E regex data of
              None \<Rightarrow> (None, [])
            | Some match \<Rightarrow> (parseInt (numericText match), []))
     \<and> numericText \<lparr>m0 = whole, m1 = None\<rparr> = whole
     \<and> numericText \<lparr>m0 = whole, m1 = Some []\<rparr> = whole
     \<and> numericText \<lparr>m0 = whole, m1 = Some (x # g)\<rparr> = x # g
     \<and> (parseInt s \<noteq> None \<longleftrightarrow>
          (\<exists>ws sign d rest. s = ws @ sign @ d # rest \<and> (\<forall>c \<in> set ws. isWhiteSpace c)
             \<and> sign \<in> {[], ''-'', ''+''} \<and> isDigit d))
     \<and> ((\<forall>c \<in> set ws. isWhiteSpace c) \<and> sign \<in> {[], ''-'', ''+''} \<and> ds \<noteq> []
          \<and> (\<forall>c \<in> set ds. isDigit c) \<and> (rest = [] \<or> \<not> isDigit (hd rest)) \<longrightarrow>
          parseInt (ws @ sign @ ds @ rest) =
            Some (if sign = ''-'' \<and> digitsValue ds = 0 then NegZero
                  else toNumber (if sign = ''-'' then - digitsValue ds else digitsValue ds)))
     \<and> digitsValue [] = 0
     \<and> digitsValue (ds @ [d]) = 10 * digitsValue ds + digitVal d
     \<and> (\<bar>i\<bar> \<le> 2 ^ 53 \<longrightarrow> toNumber i = Num i)
     \<and> (2 ^ 1024 \<le> \<bar>j\<bar> \<longrightarrow> toNumber j = (if j < 0 then NegInfinity else PosInfinity))
     \<and> (2 ^ 53 \<le> \<bar>k\<bar> \<longrightarrow>
          2 ^ (bitLength \<bar>k\<bar> - 1) \<le> \<bar>k\<bar> \<and> \<bar>k\<bar> < 2 ^ bitLength \<bar>k\<bar>
          \<and> (\<exists>m. 2 ^ 52 \<le> m \<and> m \<le> 2 ^ 53
                 \<and> 2 * \<bar>m * 2 ^ (bitLength \<bar>k\<bar> - 53) - \<bar>k\<bar>\<bar> \<le> 2 ^ (bitLength \<bar>k\<bar> - 53)
                 \<and> (2 * \<bar>m * 2 ^ (bitLength \<bar>k\<bar> - 53) - \<bar>k\<bar>\<bar> = 2 ^ (bitLength \<bar>k\<bar> - 53)
                      \<longrightarrow> even m)
                 \<and> toNumber k =
                     (if 2 ^ 1024 \<le> m * 2 ^ (bitLength \<bar>k\<bar> - 53)
                      then (if k < 0 then NegInfinity else PosInfinity)
                      else Num (if k < 0 then - (m * 2 ^ (bitLength \<bar>k\<bar> - 53))
                                else m * 2 ^ (bitLength \<bar>k\<bar> - 53)))))"
proof (intro conjI)
  show "applyRegexFilter E cfg data =
           (case exec E regex data of
              None \<Rightarrow> (None, [])
            | Some match \<Rightarrow> (parseInt (numericText match), []))"
    by (rule applyRegexFilter_match[OF assms])
next
  show "parseInt s \<noteq> None \<longleftrightarrow>
          (\<exists>ws sign d rest. s = ws @ sign @ d # rest \<and> (\<forall>c \<in> set ws. isWhiteSpace c)
             \<and> sign \<in> {[], ''-'', ''+''} \<and> isDigit d)"
    by (rule parseInt_Some_iff)
next
  show "(\<forall>c \<in> set ws. isWhiteSpace c) \<and> sign \<in> {[], ''-'', ''+''} \<and> ds \<noteq> []
          \<and> (\<forall>c \<in> set ds. isDigit c) \<and> (rest = [] \<or> \<not> isDigit (hd rest)) \<longrightarrow>
          parseInt (ws @ sign @ ds @ rest) =
            Some (if sign = ''-'' \<and> digitsValue ds = 0 then NegZero
                  else toNumber (if sign = ''-'' then - digitsValue ds else digitsValue ds))"
    using parseInt_value[of ws sign ds rest] by blast
next
  show "\<bar>i\<bar> \<le> 2 ^ 53 \<longrightarrow> toNumber i = Num i"
    using toNumber_exact by blast
next
  show "2 ^ 1024 \<le> \<bar>j\<bar> \<longrightarrow> toNumber j = (if j < 0 then NegInfinity else PosInfinity)"
    using toNumber_infinite by blast
next
  show "2 ^ 53 \<le> \<bar>k\<bar> \<longrightarrow>
          2 ^ (bitLength \<bar>k\<bar> - 1) \<le> \<bar>k\<bar> \<and> \<bar>k\<bar> < 2 ^ bitLength \<bar>k\<bar>
          \<and> (\<exists>m. 2 ^ 52 \<le> m \<and> m \<le> 2 ^ 53
                 \<and> 2 * \<bar>m * 2 ^ (bitLength \<bar>k\<bar> - 53) - \<bar>k\<bar>\<bar> \<le> 2 ^ (bitLength \<bar>k\<bar> - 53)
                 \<and> (2 * \<bar>m * 2 ^ (bitLength \<bar>k\<bar> - 53) - \<bar>k\<bar>\<bar> = 2 ^ (bitLength \<bar>k\<bar> - 53)
                      \<longrightarrow> even m)
                 \<and> toNumber k =
                     (if 2 ^ 1024 \<le> m * 2 ^ (bitLength \<bar>k\<bar> - 53)
                      then (if k < 0 then NegInfinity else PosInfinity)
                      else Num (if k < 0 then - (m * 2 ^ (bitLength \<bar>k\<bar> - 53))
                                else m * 2 ^ (bitLength \<bar>k\<bar> - 53))))"
  proof
    assume a: "2 ^ 53 \<le> \<bar>k\<bar>"
    then have pos: "0 < \<bar>k\<bar>" by (smt (verit) zero_less_power)
    from roundToDouble_nearest[OF a] obtain m where
      m: "roundToDouble \<bar>k\<bar> = m * 2 ^ (bitLength \<bar>k\<bar> - 53)" "2 ^ 52 \<le> m" "m \<le> 2 ^ 53"
         "2 * \<bar>m * 2 ^ (bitLength \<bar>k\<bar> - 53) - \<bar>k\<bar>\<bar> \<le> 2 ^ (bitLength \<bar>k\<bar> - 53)"
         "2 * \<bar>m * 2 ^ (bitLength \<bar>k\<bar> - 53) - \<bar>k\<bar>\<bar> = 2 ^ (bitLength \<bar>k\<bar> - 53) \<longrightarrow> even m"
      by blast
    have t: "toNumber k =
               (if 2 ^ 1024 \<le> m * 2 ^ (bitLength \<bar>k\<bar> - 53)
                then (if k < 0 then NegInfinity else PosInfinity)
                else Num (if k < 0 then - (m * 2 ^ (bitLength \<bar>k\<bar> - 53))
                          else m * 2 ^ (bitLength \<bar>k\<bar> - 53)))"
    proof -
      have "\<not> \<bar>k\<bar> < 2 ^ 53" using a by simp
      then show ?thesis
        unfolding toNumber_def Let_def m(1) by (simp only: if_False)
    qed
    show "2 ^ (bitLength \<bar>k\<bar> - 1) \<le> \<bar>k\<bar> \<and> \<bar>k\<bar> < 2 ^ bitLength \<bar>k\<bar>
          \<and> (\<exists>m. 2 ^ 52 \<le> m \<and> m \<le> 2 ^ 53
                 \<and> 2 * \<bar>m * 2 ^ (bitLength \<bar>k\<bar> - 53) - \<bar>k\<bar>\<bar> \<le> 2 ^ (bitLength \<bar>k\<bar> - 53)
                 \<and> (2 * \<bar>m * 2 ^ (bitLength \<bar>k\<bar> - 53) - \<bar>k\<bar>\<bar> = 2 ^ (bitLength \<bar>k\<bar> - 53)
                      \<longrightarrow> even m)
                 \<and> toNumber k =
                     (if 2 ^ 1024 \<le> m * 2 ^ (bitLength \<bar>k\<bar> - 53)
                      then (if k < 0 then NegInfinity else PosInfinity)
                      else Num (if k < 0 then - (m * 2 ^ (bitLength \<bar>k\<bar> - 53))
                                else m * 2 ^ (bitLength \<bar>k\<bar> - 53))))"
      using bitLength_bounds[OF pos] m(2,3,4,5) t by blast
  qed
qed (simp_all add: numericText_def digitsValue_def)

text \<open>
  The amended C7 on the line \<open>D002260\<close> with the pattern \<open>[D@F](\d+)\<close>: the reading
  is 2260, read from the capture; on the digits of \<open>2 ^ 53 + 1\<close>, which are read as
  \<open>2 ^ 53\<close>; on 400 nines, which are read as infinity; and on \<open>-0\<close>, which is read as
  the negative zero.
\<close>

theorem extractor_numeric_text_witness:
  "regexFilter lineConfig \<noteq> []
   \<and> compile js_engine (regexFilter lineConfig) = Some (Within coquimbitoRegex)
   \<and> exec js_engine (Within coquimbitoRegex) (''D002260'' @ [CR])
       = Some \<lparr>m0 = ''D002260'', m1 = Some ''002260''\<rparr>
   \<and> parseInt ''002260'' = Some (Num 2260)
   \<and> applyRegexFilter js_engine lineConfig (''D002260'' @ [CR]) = (Some (Num 2260), [])
   \<and> parseInt ''9007199254740993'' = Some (toNumber 9007199254740993)
   \<and> toNumber 9007199254740993 = Num 9007199254740992
   \<and> \<bar>9007199254740993 :: int\<bar> < 2 ^ bitLength \<bar>9007199254740993\<bar>
   \<and> parseInt (replicate 400 (CHR ''9'')) = Some PosInfinity
   \<and> parseInt ''-0'' = Some NegZero"
proof -
  have h1: "regexFilter lineConfig \<noteq> []"
    by (simp add: lineConfig_def coquimbitoPattern_def)
  have h2: "compile js_engine (regexFilter lineConfig) = Some (Within coquimbitoRegex)"
    using compile_coquimbito by (simp add: lineConfig_def)
  have x: "exec js_engine (Within coquimbitoRegex) (''D002260'' @ [CR])
             = Some \<lparr>m0 = ''D002260'', m1 = Some ''002260''\<rparr>"
    by code_simp
  have g: "(\<forall>c \<in> set []. isWhiteSpace c) \<and> [] \<in> {[], ''-'', ''+''} \<and> ''002260'' \<noteq> []
           \<and> (\<forall>c \<in> set ''002260''. isDigit c) \<and> ([] = [] \<or> \<not> isDigit (hd []))"
    by (simp add: isDigit_def)
  have v: "digitsValue ''002260'' = 2260"
    by (simp add: digitsValue_def digitVal_def)
  have b: "\<bar>2260 :: int\<bar> \<le> 2 ^ 53"
    by simp
  have kb: "(2::int) ^ 53 \<le> \<bar>9007199254740993\<bar>"
    by simp
  note t = extractor_numeric_text[OF h1 h2,
         where data = "''D002260'' @ [CR]" and whole = "''D002260''" and x = "CHR ''0''"
           and g = "''02260''" and ws = "[]" and sign = "[]" and ds = "''002260''" and rest = "[]"
           and i = 2260 and k = 9007199254740993]
  from t have a: "applyRegexFilter js_engine lineConfig (''D002260'' @ [CR]) =
             (parseInt (numericText \<lparr>m0 = ''D002260'', m1 = Some ''002260''\<rparr>), [])"
    and n: "numericText \<lparr>m0 = ''D002260'', m1 = Some ''002260''\<rparr> = ''002260''"
    using x by simp_all
  from t g have p: "parseInt ''002260'' = Some (toNumber (digitsValue ''002260''))"
    by (simp del: power_numeral)
  from t b have e: "toNumber 2260 = Num 2260"
    by blast
  from t kb have kl: "\<bar>9007199254740993 :: int\<bar> < 2 ^ bitLength \<bar>9007199254740993\<bar>"
    by blast
  have big: "parseInt ''9007199254740993'' = Some (toNumber 9007199254740993)"
    by code_simp
  have r: "toNumber 9007199254740993 = Num 9007199254740992"
    by code_simp
  have g9: "(\<forall>c \<in> set []. isWhiteSpace c) \<and> [] \<in> {[], ''-'', ''+''}
            \<and> replicate 400 (CHR ''9'') \<noteq> []
            \<and> (\<forall>c \<in> set (replicate 400 (CHR ''9'')). isDigit c)
            \<and> ([] = [] \<or> \<not> isDigit (hd []))"
    by (simp add: isDigit_def)
  have jb: "(2::int) ^ 1024 \<le> \<bar>10 ^ 400 - 1\<bar>"
    by simp
  note t9 = extractor_numeric_text[OF h1 h2,
         where ws = "[]" and sign = "[]" and ds = "replicate 400 (CHR ''9'')" and rest = "[]"
           and j = "10 ^ 400 - 1"]
  from t9 g9 have p9: "parseInt ([] @ [] @ replicate 400 (CHR ''9'') @ []) =
       Some (if [] = ''-'' \<and> digitsValue (replicate 400 (CHR ''9'')) = 0 then NegZero
             else toNumber (if [] = ''-'' then - digitsValue (replicate 400 (CHR ''9''))
                            else digitsValue (replicate 400 (CHR ''9''))))"
    by blast
  from t9 jb have "toNumber (10 ^ 400 - 1) =
                     (if (10 ^ 400 - 1 :: int) < 0 then NegInfinity else PosInfinity)"
    by blast
  moreover have "\<not> (10 ^ 400 - 1 :: int) < 0"
    by simp
  ultimately have "toNumber (10 ^ 400 - 1) = PosInfinity"
    by (simp only: if_False)
  with p9 have n9: "parseInt (replicate 400 (CHR ''9'')) = Some PosInfinity"
    by (simp add: digitsValue_nines del: power_numeral)
  have z: "parseInt ''-0'' = Some NegZero"
    by code_simp
  show ?thesis
    using h1 h2 x a n p v e big r kl n9 z by simp
qed

subsection \<open>Zero\<close>

lemma zero_digit: "isDigit (CHR ''0'')" "digitVal (CHR ''0'') = 0"
  by (simp_all add: isDigit_def digitVal_def)

lemma digitsValue_zeros: "set zs \<subseteq> {CHR ''0''} \<Longrightarrow> digitsValue zs = 0"
proof (induction zs rule: rev_induct)
  case Nil
  then show ?case by (simp add: digitsValue_def)
next
  case (snoc z zs)
  then have "z = CHR ''0''" "digitsValue zs = 0" by auto
  then show ?case by (simp add: digitsValue_snoc zero_digit)
qed

lemma parseInt_zeros:
  assumes "zs \<noteq> []" and "set zs \<subseteq> {CHR ''0''}"
  shows "parseInt zs = Some (Num 0)"
proof -
  have d: "\<forall>c \<in> set zs. isDigit c"
    using assms(2) zero_digit(1) by auto
  have "toNumber 0 = Num 0"
    by (simp add: toNumber_def)
  with parseInt_digits(1)[OF assms(1) d, of "[]"] digitsValue_zeros[OF assms(2)]
  show ?thesis by simp
qed

text \<open>
  C9: a non-empty text of zeros is read as 0; a match whose numeric text reads as 0
  makes the extractor return the reading 0; and whenever the decoder of the configured
  mode returns 0 for a chunk, the collection resolves at that chunk with weight 0,
  which \<open>readWeight\<close> turns into a success.
\<close>

theorem zero_is_a_reading:
  "(zs \<noteq> [] \<and> set zs \<subseteq> {CHR ''0''} \<longrightarrow> parseInt zs = Some (Num 0))
   \<and> (regexFilter cfg \<noteq> [] \<and> compile E (regexFilter cfg) = Some regex
        \<and> exec E regex data = Some match \<and> parseInt (numericText match) = Some (Num 0) \<longrightarrow>
        applyRegexFilter E cfg data = (Some (Num 0), []))
   \<and> ((if protocolType cfg = ''frame''
         then fst (processFrameProtocol E cfg (dataBuffer st @ d) d)
         else fst (processLineProtocol E cfg (dataBuffer st @ d) d)) = Some (Num 0) \<longrightarrow>
        (\<exists>raw. fst (collect E cfg st (Data d # evs)) = Resolved (Num 0) raw
               \<and> sessionResult cfg env (Resolved (Num 0) raw) =
                   Success (Num 0) (protocolType cfg) raw (endTime env - startTime env)))"
proof (intro conjI)
  show "zs \<noteq> [] \<and> set zs \<subseteq> {CHR ''0''} \<longrightarrow> parseInt zs = Some (Num 0)"
    using parseInt_zeros by blast
next
  show "regexFilter cfg \<noteq> [] \<and> compile E (regexFilter cfg) = Some regex
        \<and> exec E regex data = Some match \<and> parseInt (numericText match) = Some (Num 0) \<longrightarrow>
        applyRegexFilter E cfg data = (Some (Num 0), [])"
    by (auto simp: applyRegexFilter_match)
next
  show "(if protocolType cfg = ''frame''
         then fst (processFrameProtocol E cfg (dataBuffer st @ d) d)
         else fst (processLineProtocol E cfg (dataBuffer st @ d) d)) = Some (Num 0) \<longrightarrow>
        (\<exists>raw. fst (collect E cfg st (Data d # evs)) = Resolved (Num 0) raw
               \<and> sessionResult cfg env (Resolved (Num 0) raw) =
                   Success (Num 0) (protocolType cfg) raw (endTime env - startTime env))"
  proof
    assume "(if protocolType cfg = ''frame''
         then fst (processFrameProtocol E cfg (dataBuffer st @ d) d)
         else fst (processLineProtocol E cfg (dataBuffer st @ d) d)) = Some (Num 0)"
    from collect_emits[OF this, of evs] obtain raw
      where "fst (collect E cfg st (Data d # evs)) = Resolved (Num 0) raw" by blast
    then show "\<exists>raw. fst (collect E cfg st (Data d # evs)) = Resolved (Num 0) raw
               \<and> sessionResult cfg env (Resolved (Num 0) raw) =
                   Success (Num 0) (protocolType cfg) raw (endTime env - startTime env)"
      by (auto simp: sessionResult_def)
  qed
qed

text \<open>
  C9 on the standby line \<open>F000000\<close>: the session succeeds with weight 0.
\<close>

theorem zero_is_a_reading_witness:
  "''000000'' \<noteq> [] \<and> set ''000000'' \<subseteq> {CHR ''0''} \<and> parseInt ''000000'' = Some (Num 0)
   \<and> exec js_engine (Within coquimbitoRegex) (''F000000'' @ [CR])
       = Some \<lparr>m0 = ''F000000'', m1 = Some ''000000''\<rparr>
   \<and> applyRegexFilter js_engine lineConfig (''F000000'' @ [CR]) = (Some (Num 0), [])
   \<and> fst (processLineProtocol js_engine lineConfig (''F000000'' @ [CR]) (''F000000'' @ [CR])) = Some (Num 0)
   \<and> (\<exists>raw. fst (readWeight js_engine lineConfig (quietEnvironment [Data (''F000000'' @ [CR])]))
             = Success (Num 0) ''line'' raw 250)"
proof -
  let ?d = "''F000000'' @ [CR]"
  let ?st = "\<lparr>dataBuffer = [], lastValidWeight = None\<rparr>"
  let ?env = "quietEnvironment [Data ?d]"
  let ?match = "\<lparr>m0 = ''F000000'', m1 = Some ''000000''\<rparr>"
  have z: "''000000'' \<noteq> [] \<and> set ''000000'' \<subseteq> {CHR ''0''}"
    by simp
  have h1: "regexFilter lineConfig \<noteq> []"
    by (simp add: lineConfig_def coquimbitoPattern_def)
  have h2: "compile js_engine (regexFilter lineConfig) = Some (Within coquimbitoRegex)"
    using compile_coquimbito by (simp add: lineConfig_def)
  have x: "exec js_engine (Within coquimbitoRegex) ?d = Some ?match"
    by code_simp
  have n: "numericText ?match = ''000000''"
    by (simp add: numericText_def)
  have l: "protocolType lineConfig = ''line''" "protocolType lineConfig \<noteq> ''frame''"
    by (simp_all add: lineConfig_def)
  have pl: "fst (processLineProtocol js_engine lineConfig (dataBuffer ?st @ ?d) ?d) = Some (Num 0)"
    by code_simp
  have e: "events ?env = [Data ?d]" "endTime ?env - startTime ?env = 250"
    by (simp_all add: quietEnvironment_def)
  note t = zero_is_a_reading
             [where zs = "''000000''" and cfg = lineConfig and E = js_engine
                and regex = "Within coquimbitoRegex" and data = ?d and match = ?match
                and st = ?st and d = ?d and evs = "[]" and env = ?env]
  from t z have p: "parseInt ''000000'' = Some (Num 0)"
    by blast
  from t h1 h2 x n p have a: "applyRegexFilter js_engine lineConfig ?d = (Some (Num 0), [])"
    by simp
  from t l pl obtain raw where
    r: "fst (collect js_engine lineConfig ?st [Data ?d]) = Resolved (Num 0) raw"
       "sessionResult lineConfig ?env (Resolved (Num 0) raw) = Success (Num 0) ''line'' raw 250"
    unfolding e by auto
  have "fst (readWeight js_engine lineConfig ?env)
          = sessionResult lineConfig ?env (fst (collect js_engine lineConfig ?st [Data ?d]))"
    by (simp only: readWeight_result openPort_quiet collectData_def e fst_conv option.case)
  then have "fst (readWeight js_engine lineConfig ?env) = Success (Num 0) ''line'' raw 250"
    by (simp only: r)
  then show ?thesis
    using z p x a pl by auto
qed

section \<open>The size of the buffer\<close>

lemma lastIndexOf_Some:
  "lastIndexOf c s = Some i \<Longrightarrow> i < length s \<and> s ! i = c \<and> c \<notin> set (drop (Suc i) s)"
proof (induction s arbitrary: i)
  case Nil
  then show ?case by simp
next
  case (Cons x xs)
  show ?case
  proof (cases "lastIndexOf c xs")
    case None
    with Cons.prems have "x = c" "i = 0" by (auto split: if_splits)
    with None show ?thesis by (simp add: lastIndexOf_None)
  next
    case (Some j)
    with Cons.prems have "i = Suc j" by simp
    with Cons.IH[OF Some] show ?thesis by simp
  qed
qed

lemma drop_lastIndexOf:
  assumes "lastIndexOf c s = Some i"
  shows "\<exists>xs. drop i s = c # xs \<and> c \<notin> set xs"
  using lastIndexOf_Some[OF assms] Cons_nth_drop_Suc[of i s] by metis

lemma processFrameProtocol_suffix:
  "\<exists>pre. buf = pre @ fst (snd (processFrameProtocol E cfg buf d))"
proof -
  have d: "\<And>k. \<exists>pre. buf = pre @ drop k buf"
    by (metis append_take_drop_id)
  have e: "\<exists>pre. buf = pre @ []" by simp
  show ?thesis
    using d e
    by (auto simp: processFrameProtocol_def substring_def split: prod.splits option.splits)
qed

lemma processFrameProtocol_overflow:
  assumes "fst (processFrameProtocol E cfg buf d) = None"
  shows "fst (snd (processFrameProtocol E cfg buf d)) =
           (if length buf > 1000
            then (case lastIndexOf STX buf of Some i \<Rightarrow> drop i buf | None \<Rightarrow> [])
            else buf)"
  using assms
  by (auto simp: processFrameProtocol_def substring_def split: prod.splits option.splits)

lemma processFrameProtocol_bound:
  assumes "fst (processFrameProtocol E cfg buf d) = None"
  shows "length (fst (snd (processFrameProtocol E cfg buf d))) \<le> 1000
         \<or> (\<exists>xs. fst (snd (processFrameProtocol E cfg buf d)) = STX # xs \<and> STX \<notin> set xs)"
proof (cases "lastIndexOf STX buf")
  case None
  then show ?thesis
    unfolding processFrameProtocol_overflow[OF assms] by simp
next
  case (Some i)
  from drop_lastIndexOf[OF Some] Some show ?thesis
    unfolding processFrameProtocol_overflow[OF assms] by auto
qed

lemma frame_recovery:
  assumes "protocolType cfg = ''frame''"
    and "ETX \<notin> set junk" and "STX \<notin> set body" and "ETX \<notin> set body"
    and "fst (applyRegexFilter E cfg (STX # body @ [ETX])) = Some w"
  shows "fst (collectData E cfg [Data junk, Data (STX # body @ [ETX])]) = Resolved w []"
proof -
  have fa: "frameAttempt E cfg junk = (None, [])"
  proof (cases "lastIndexOf STX junk")
    case None
    then show ?thesis by (simp add: frameAttempt_def)
  next
    case (Some i)
    have "ETX \<notin> set (drop i junk)"
      using assms(2) by (meson in_set_dropD)
    then have "indexOf ETX (substring junk i) = None"
      by (simp add: indexOf_None substring_def)
    with Some show ?thesis by (simp add: frameAttempt_def)
  qed
  obtain buf1 where p1: "processFrameProtocol E cfg junk junk = (None, buf1, [])"
    using fa by (simp add: processFrameProtocol_def)
  obtain lg where ap: "applyRegexFilter E cfg (STX # body @ [ETX]) = (Some w, lg)"
    using assms(5) by (cases "applyRegexFilter E cfg (STX # body @ [ETX])") auto
  have fa2: "frameAttempt E cfg (buf1 @ STX # body @ ETX # []) =
               (Some (w, length buf1 + length body + 2), lg)"
    using frameAttempt_last_frame[of body "[]" E cfg buf1] assms(3,4) ap by simp
  have p2: "processFrameProtocol E cfg (buf1 @ STX # body @ [ETX]) (STX # body @ [ETX])
              = (Some w, [], lg)"
    using fa2 by (simp add: processFrameProtocol_def substring_def)
  show ?thesis
    using assms(1) p1 p2 by (simp add: collectData_def onData_def)
qed

lemma line_buffer_grows:
  "protocolType cfg \<noteq> ''frame'' \<Longrightarrow>
   dataBuffer (fst (snd (onData E cfg st d))) = dataBuffer st @ d"
  by (auto simp: onData_def Let_def split: prod.splits option.splits)

lemma unterminated_frame_kept:
  assumes "STX \<notin> set xs" and "ETX \<notin> set xs"
  shows "processFrameProtocol E cfg (STX # xs) d = (None, STX # xs, [])"
proof -
  have l: "lastIndexOf STX (STX # xs) = Some 0"
    using lastIndexOf_last[of STX xs "[]"] assms(1) by simp
  have i: "indexOf ETX (STX # xs) = None"
    using assms(2) STX_neq_ETX by (simp add: indexOf_None)
  have fa: "frameAttempt E cfg (STX # xs) = (None, [])"
    unfolding frameAttempt_def l by (simp add: substring_def i del: indexOf.simps)
  show ?thesis
    unfolding processFrameProtocol_def fa l by (simp add: substring_def)
qed

text \<open>
  C8, as stated, fails: an unterminated frame that starts the buffer is never cut.
  After a start marker and 1000 further characters the buffer holds 1001 characters,
  after 1000 more it holds 2001, and the overflow branch has run on both chunks.
\<close>

theorem unterminated_frame_grows_past_ceiling:
  "collectData js_engine frameConfig
     [Data (STX # replicate 1000 (CHR ''x'')), Data (replicate 1000 (CHR ''y''))]
   = (Rejected (Timeout 3000),
      \<lparr>dataBuffer = STX # replicate 1000 (CHR ''x'') @ replicate 1000 (CHR ''y''),
        lastValidWeight = None\<rparr>, [])
   \<and> length (STX # replicate 1000 (CHR ''x'') @ replicate 1000 (CHR ''y'')) = 2001"
proof -
  let ?x = "replicate 1000 (CHR ''x'')"
  let ?y = "replicate 1000 (CHR ''y'')"
  have s: "STX \<notin> set ?x" "ETX \<notin> set ?x" "STX \<notin> set (?x @ ?y)" "ETX \<notin> set (?x @ ?y)"
    by (simp_all add: STX_def ETX_def)
  have p1: "processFrameProtocol js_engine frameConfig (STX # ?x) (STX # ?x) = (None, STX # ?x, [])"
    by (rule unterminated_frame_kept[OF s(1,2)])
  have p2: "processFrameProtocol js_engine frameConfig (STX # ?x @ ?y) ?y = (None, STX # ?x @ ?y, [])"
    by (rule unterminated_frame_kept[OF s(3,4)])
  have c: "protocolType frameConfig = ''frame''" "readTimeout frameConfig = 3000"
    by (simp_all add: frameConfig_def lineConfig_def)
  show ?thesis
    by (simp add: collectData_def onData_def onTimeout_def c p1 p2)
qed

text \<open>
  C8, amended: the frame decoder only ever drops a prefix of the buffer. When a chunk
  yields no reading and the buffer is longer than 1000 characters, the buffer is cut to
  begin at its last start marker, or emptied when it has none; afterwards it is at most
  1000 characters long or is one start marker followed by data without a start marker,
  of any length. The line decoder never shortens the buffer. An unterminated frame of
  any length followed by a chunk with a fresh start marker and a complete valid frame
  yields the reading of the fresh frame.
\<close>

theorem buffer_ceiling:
  "(\<exists>pre. buf = pre @ fst (snd (processFrameProtocol E cfg buf d)))
   \<and> (fst (processFrameProtocol E cfg buf d) = None \<longrightarrow>
        fst (snd (processFrameProtocol E cfg buf d)) =
          (if length buf > 1000
           then (case lastIndexOf STX buf of Some i \<Rightarrow> drop i buf | None \<Rightarrow> [])
           else buf)
        \<and> (length (fst (snd (processFrameProtocol E cfg buf d))) \<le> 1000
            \<or> (\<exists>xs. fst (snd (processFrameProtocol E cfg buf d)) = STX # xs \<and> STX \<notin> set xs)))
   \<and> (lastIndexOf STX buf = None \<longleftrightarrow> STX \<notin> set buf)
   \<and> (protocolType lcfg \<noteq> ''frame'' \<longrightarrow>
        dataBuffer (fst (snd (onData E lcfg st d))) = dataBuffer st @ d)
   \<and> (protocolType cfg = ''frame'' \<and> ETX \<notin> set junk \<and> STX \<notin> set body \<and> ETX \<notin> set body
        \<and> fst (applyRegexFilter E cfg (STX # body @ [ETX])) = Some w \<longrightarrow>
        fst (collectData E cfg [Data junk, Data (STX # body @ [ETX])]) = Resolved w [])"
proof (intro conjI)
  show "\<exists>pre. buf = pre @ fst (snd (processFrameProtocol E cfg buf d))"
    by (rule processFrameProtocol_suffix)
next
  show "fst (processFrameProtocol E cfg buf d) = None \<longrightarrow>
        fst (snd (processFrameProtocol E cfg buf d)) =
          (if length buf > 1000
           then (case lastIndexOf STX buf of Some i \<Rightarrow> drop i buf | None \<Rightarrow> [])
           else buf)
        \<and> (length (fst (snd (processFrameProtocol E cfg buf d))) \<le> 1000
            \<or> (\<exists>xs. fst (snd (processFrameProtocol E cfg buf d)) = STX # xs \<and> STX \<notin> set xs))"
    using processFrameProtocol_overflow[of E cfg buf d] processFrameProtocol_bound[of E cfg buf d]
    by blast
next
  show "lastIndexOf STX buf = None \<longleftrightarrow> STX \<notin> set buf"
    by (rule lastIndexOf_None)
next
  show "protocolType lcfg \<noteq> ''frame'' \<longrightarrow>
        dataBuffer (fst (snd (onData E lcfg st d))) = dataBuffer st @ d"
    using line_buffer_grows by blast
next
  show "protocolType cfg = ''frame'' \<and> ETX \<notin> set junk \<and> STX \<notin> set body \<and> ETX \<notin> set body
        \<and> fst (applyRegexFilter E cfg (STX # body @ [ETX])) = Some w \<longrightarrow>
        fst (collectData E cfg [Data junk, Data (STX # body @ [ETX])]) = Resolved w []"
    using frame_recovery by blast
qed

text \<open>
  The amended C8 on an unterminated frame of 1201 characters followed by the frame of
  the San Juan scale: the reading is 20450.
\<close>

theorem buffer_ceiling_witness:
  "fst (processFrameProtocol js_engine frameConfig (STX # replicate 1200 (CHR ''x''))
          (STX # replicate 1200 (CHR ''x''))) = None
   \<and> protocolType lineConfig \<noteq> ''frame'' \<and> protocolType frameConfig = ''frame''
   \<and> ETX \<notin> set (STX # replicate 1200 (CHR ''x''))
   \<and> fst (applyRegexFilter js_engine frameConfig
            (STX # (''1'' @ [CR, LF] @ ''20450'' @ [CR, LF] @ ''0'') @ [ETX])) = Some (Num 20450)
   \<and> fst (collectData js_engine frameConfig
            [Data (STX # replicate 1200 (CHR ''x'')),
             Data (STX # (''1'' @ [CR, LF] @ ''20450'' @ [CR, LF] @ ''0'') @ [ETX])])
       = Resolved (Num 20450) []"
proof -
  let ?junk = "STX # replicate 1200 (CHR ''x'')"
  let ?body = "''1'' @ [CR, LF] @ ''20450'' @ [CR, LF] @ ''0''"
  have s: "STX \<notin> set (replicate 1200 (CHR ''x''))" "ETX \<notin> set (replicate 1200 (CHR ''x''))"
    by (simp_all add: STX_def ETX_def)
  have n: "fst (processFrameProtocol js_engine frameConfig ?junk ?junk) = None"
    by (simp add: unterminated_frame_kept[OF s])
  have l: "protocolType lineConfig \<noteq> ''frame''" "protocolType frameConfig = ''frame''"
    by (simp_all add: lineConfig_def frameConfig_def)
  have j: "ETX \<notin> set ?junk"
    using s(2) STX_neq_ETX by auto
  have b: "STX \<notin> set ?body" "ETX \<notin> set ?body"
    by (simp_all add: STX_def ETX_def CR_def LF_def)
  have a: "fst (applyRegexFilter js_engine frameConfig (STX # ?body @ [ETX])) = Some (Num 20450)"
    by code_simp
  from buffer_ceiling
         [where E = js_engine and cfg = frameConfig and lcfg = lineConfig and buf = ?junk
            and d = ?junk and junk = ?junk and body = ?body and w = "Num 20450"]
  have "fst (collectData js_engine frameConfig [Data ?junk, Data (STX # ?body @ [ETX])])
          = Resolved (Num 20450) []"
    using l(2) j b a by blast
  then show ?thesis
    using n l j a by blast
qed

end
